theory Spec2Isabelle
  imports Complex_Main "HOL-Library.Log_Nat"
begin

section \<open>TaskMate: timeline layout and the mutation guard of script.js\<close>

text \<open>
  The development follows the last of the three iterations of the client script that
  are concatenated in \<^verbatim>\<open>src/static/js/script.js\<close> (the one that declares
  \<^verbatim>\<open>processingEvents\<close>, \<^verbatim>\<open>completedEvents\<close> and \<^verbatim>\<open>isLoadingEvents\<close>).

  Conventions of the embedding:
  \<^item> a JavaScript string is a \<^typ>\<open>string\<close>; its characters are read as the code units
    U+0000 to U+00FF;
  \<^item> a JavaScript number is a \<open>jsnum\<close>: NaN, one of the two infinities, or a finite
    IEEE 754 double, kept as the rational it denotes. Every arithmetic operation rounds
    its exact result to the nearest double, ties to even, as the standard prescribes.
    The sign of zero is not kept: it shows only under a division by zero, and the
    script divides by the literal 60 alone;
  \<^item> \<^verbatim>\<open>null\<close> results are \<open>None\<close>.
\<close>

subsection \<open>Numbers\<close>

datatype jsnum = NaN | PInf | NInf | Fin rat

text \<open>The binary exponent of a positive rational \<open>x\<close>: the \<open>e\<close> with
  \<open>2\<^sup>e \<le> x < 2\<^sup>e\<^sup>+\<^sup>1\<close>, from the bit lengths of numerator and denominator.\<close>

definition ilog2 :: "rat \<Rightarrow> int" where
  "ilog2 x =
     (let (p, q) = quotient_of x; d = bitlen p - bitlen q
      in if 2 powi d \<le> x then d else d - 1)"

text \<open>Rounding to the nearest integer, ties to the even one.\<close>

definition roundHalfEven :: "rat \<Rightarrow> int" where
  "roundHalfEven y =
     (let f = \<lfloor>y\<rfloor>; r = y - of_int f
      in if r < 1 / 2 then f
         else if 1 / 2 < r then f + 1
         else if even f then f else f + 1)"

text \<open>Rounding to binary64: 53 significant bits, so the spacing of the doubles around
  \<open>x\<close> is \<open>2\<^sup>e\<^sup>-\<^sup>5\<^sup>2\<close>, and \<open>2\<^sup>-\<^sup>1\<^sup>0\<^sup>7\<^sup>4\<close> in the subnormal range below \<open>2\<^sup>-\<^sup>1\<^sup>0\<^sup>2\<^sup>2\<close>. A result of
  magnitude \<open>2\<^sup>1\<^sup>0\<^sup>2\<^sup>4\<close> or more is an infinity.\<close>

definition roundDouble :: "rat \<Rightarrow> rat" where
  "roundDouble x =
     (if x = 0 then 0
      else (let q = 2 powi (max (ilog2 \<bar>x\<bar>) (- 1022) - 52)
            in of_int (roundHalfEven (x / q)) * q))"

text \<open>The number \<open>2\<^sup>1\<^sup>0\<^sup>2\<^sup>4\<close>, written out so that comparisons with it are comparisons of
  numerals.\<close>

definition overflowBound :: rat where
  "overflowBound =
     179769313486231590772930519078902473361797697894230657273430081157732675805500963132708477322407536021120113879871393357658789768814416622492847430639474124377767893424865485276302219601246094119453082952085005768838150682342462881473913110540827237163350510684586298239947245938479716304835356329624224137216"

definition toNumber :: "rat \<Rightarrow> jsnum" where
  "toNumber x =
     (let r = roundDouble x
      in if overflowBound \<le> r then PInf
         else if r \<le> - overflowBound then NInf
         else Fin r)"

fun jsNeg :: "jsnum \<Rightarrow> jsnum" where
  "jsNeg NaN = NaN"
| "jsNeg PInf = NInf"
| "jsNeg NInf = PInf"
| "jsNeg (Fin a) = Fin (- a)"

fun jsAdd :: "jsnum \<Rightarrow> jsnum \<Rightarrow> jsnum" where
  "jsAdd (Fin a) (Fin b) = toNumber (a + b)"
| "jsAdd NaN _ = NaN"
| "jsAdd _ NaN = NaN"
| "jsAdd PInf NInf = NaN"
| "jsAdd NInf PInf = NaN"
| "jsAdd PInf _ = PInf"
| "jsAdd _ PInf = PInf"
| "jsAdd NInf _ = NInf"
| "jsAdd _ NInf = NInf"

fun jsSub :: "jsnum \<Rightarrow> jsnum \<Rightarrow> jsnum" where
  "jsSub (Fin a) (Fin b) = toNumber (a - b)"
| "jsSub x y = jsAdd x (jsNeg y)"

fun jsMul :: "jsnum \<Rightarrow> jsnum \<Rightarrow> jsnum" where
  "jsMul (Fin a) (Fin b) = toNumber (a * b)"
| "jsMul NaN _ = NaN"
| "jsMul _ NaN = NaN"
| "jsMul (Fin a) y = (if a = 0 then NaN else if 0 < a then y else jsNeg y)"
| "jsMul x (Fin b) = (if b = 0 then NaN else if 0 < b then x else jsNeg x)"
| "jsMul x y = (if x = y then PInf else NInf)"

text \<open>Division. A zero divisor is read as \<open>+0\<close>.\<close>

fun jsDiv :: "jsnum \<Rightarrow> jsnum \<Rightarrow> jsnum" where
  "jsDiv (Fin a) (Fin b) =
     (if b = 0 then (if a = 0 then NaN else if 0 < a then PInf else NInf)
      else toNumber (a / b))"
| "jsDiv NaN _ = NaN"
| "jsDiv _ NaN = NaN"
| "jsDiv (Fin a) _ = Fin 0"
| "jsDiv x (Fin b) = (if 0 \<le> b then x else jsNeg x)"
| "jsDiv _ _ = NaN"

text \<open>The comparisons \<^verbatim>\<open><\<close>, \<^verbatim>\<open><=\<close> and \<^verbatim>\<open>===\<close>: false as soon as one side is NaN.\<close>

fun jsLt :: "jsnum \<Rightarrow> jsnum \<Rightarrow> bool" where
  "jsLt (Fin a) (Fin b) = (a < b)"
| "jsLt NaN _ = False"
| "jsLt _ NaN = False"
| "jsLt PInf _ = False"
| "jsLt _ NInf = False"
| "jsLt _ _ = True"

fun jsEq :: "jsnum \<Rightarrow> jsnum \<Rightarrow> bool" where
  "jsEq (Fin a) (Fin b) = (a = b)"
| "jsEq PInf PInf = True"
| "jsEq NInf NInf = True"
| "jsEq _ _ = False"

definition jsLe :: "jsnum \<Rightarrow> jsnum \<Rightarrow> bool" where
  "jsLe x y = (jsLt x y \<or> jsEq x y)"

subsection \<open>Strings: \<^verbatim>\<open>trim\<close>, \<^verbatim>\<open>split\<close>, \<^verbatim>\<open>parseInt\<close>\<close>

text \<open>White space of \<^verbatim>\<open>String.prototype.trim\<close> and \<^verbatim>\<open>parseInt\<close> below U+0100:
  TAB, LF, VT, FF, CR, SPACE and NO-BREAK SPACE.\<close>

definition isWs :: "char \<Rightarrow> bool" where
  "isWs c = (of_char c \<in> set [9, 10, 11, 12, 13, 32, 160 :: nat])"

definition trim :: "string \<Rightarrow> string" where
  "trim s = rev (dropWhile isWs (rev (dropWhile isWs s)))"

text \<open>\<^verbatim>\<open>s.split(c)\<close> for a one-character separator: the pieces between the
  occurrences of \<open>c\<close>, empty pieces included; never the empty list.\<close>

fun jsSplit :: "char \<Rightarrow> string \<Rightarrow> string list" where
  "jsSplit c [] = [[]]"
| "jsSplit c (x # xs) =
     (if x = c then [] # jsSplit c xs
      else (case jsSplit c xs of
              p # ps \<Rightarrow> (x # p) # ps
            | [] \<Rightarrow> [[x]]))"

text \<open>The value of a character as a digit (0-9, a-z, A-Z), and as a digit of radix \<open>r\<close>.\<close>

definition digitVal :: "char \<Rightarrow> nat option" where
  "digitVal c =
     (let n = (of_char c :: nat) in
      if 48 \<le> n \<and> n \<le> 57 then Some (n - 48)
      else if 97 \<le> n \<and> n \<le> 122 then Some (n - 87)
      else if 65 \<le> n \<and> n \<le> 90 then Some (n - 55)
      else None)"

definition radixDigit :: "nat \<Rightarrow> char \<Rightarrow> nat option" where
  "radixDigit r c =
     (case digitVal c of
        Some v \<Rightarrow> if v < r then Some v else None
      | None \<Rightarrow> None)"

definition isRadixDigit :: "nat \<Rightarrow> char \<Rightarrow> bool" where
  "isRadixDigit r c = (radixDigit r c \<noteq> None)"

definition digitsValue :: "nat \<Rightarrow> string \<Rightarrow> int" where
  "digitsValue r z =
     foldl (\<lambda>acc c. acc * int r + (case radixDigit r c of Some v \<Rightarrow> int v | None \<Rightarrow> 0))
       0 z"

text \<open>\<^verbatim>\<open>parseInt(str)\<close> with no radix argument: skip leading white space, read an
  optional sign, switch to radix 16 after a \<^verbatim>\<open>0x\<close> or \<^verbatim>\<open>0X\<close> prefix, read the longest
  run of digits, and return NaN when that run is empty. The value of the run is rounded
  to a double (the standard lets an engine drop decimal digits after the twentieth
  before it rounds; that is not modelled).\<close>

definition stripSign :: "string \<Rightarrow> rat \<times> string" where
  "stripSign s =
     (case s of
        [] \<Rightarrow> (1, s)
      | c # t \<Rightarrow> if c = CHR ''-'' then (- 1, t)
                 else if c = CHR ''+'' then (1, t)
                 else (1, s))"

definition stripPrefix :: "string \<Rightarrow> nat \<times> string" where
  "stripPrefix s =
     (case s of
        a # b # t \<Rightarrow> if a = CHR ''0'' \<and> (b = CHR ''x'' \<or> b = CHR ''X'') then (16, t)
                     else (10, s)
      | _ \<Rightarrow> (10, s))"

definition parseInt :: "string \<Rightarrow> jsnum" where
  "parseInt str =
     (let (sign, s1) = stripSign (dropWhile isWs str);
          (r, s2) = stripPrefix s1;
          z = takeWhile (isRadixDigit r) s2
      in if z = [] then NaN else toNumber (sign * of_int (digitsValue r z)))"

subsection \<open>TimelineLayout\<close>

record clock =
  hour :: jsnum
  minute :: jsnum

text \<open>\<^verbatim>\<open>parseTimeString\<close>: \<^verbatim>\<open>parts[1] || 0\<close> is the second piece unless it is missing
  or empty, and then the number 0, which \<^verbatim>\<open>parseInt\<close> reads as the string \<^verbatim>\<open>"0"\<close>.\<close>

definition parseTimeString :: "string \<Rightarrow> clock" where
  "parseTimeString timeStr =
     (let parts = jsSplit (CHR '':'') (trim timeStr) in
      \<lparr> hour = parseInt (case parts of [] \<Rightarrow> [] | p # _ \<Rightarrow> p),
        minute = parseInt (case parts of
                             _ # m # _ \<Rightarrow> if m = [] then ''0'' else m
                           | _ \<Rightarrow> ''0'') \<rparr>)"

text \<open>\<^verbatim>\<open>isOvernightEvent\<close>. For a string argument \<^verbatim>\<open>!timeRange\<close> is the test for the
  empty string.\<close>

definition isOvernightEvent :: "string \<Rightarrow> bool" where
  "isOvernightEvent timeRange =
     (if timeRange = [] then False
      else (case jsSplit (CHR ''-'') timeRange of
              [p0, p1] \<Rightarrow>
                (let startTime = parseTimeString p0;
                     endTime = parseTimeString p1
                 in jsLt (hour endTime) (hour startTime) \<or>
                    (jsEq (hour endTime) (hour startTime) \<and>
                     jsLt (minute endTime) (minute startTime)))
            | _ \<Rightarrow> False))"

text \<open>\<^verbatim>\<open>getNextDayTimeRange\<close> and \<^verbatim>\<open>getCurrentDayTimeRange\<close>. Both re-split the range
  after \<^verbatim>\<open>isOvernightEvent\<close> has accepted it; \<^verbatim>\<open>parts[0]\<close> and \<^verbatim>\<open>parts[1]\<close> exist then.\<close>

definition getNextDayTimeRange :: "string \<Rightarrow> string option" where
  "getNextDayTimeRange timeRange =
     (if \<not> isOvernightEvent timeRange then None
      else (case jsSplit (CHR ''-'') timeRange of
              _ # p1 # _ \<Rightarrow> Some (''00:00-'' @ p1)
            | _ \<Rightarrow> None))"

definition getCurrentDayTimeRange :: "string \<Rightarrow> string" where
  "getCurrentDayTimeRange timeRange =
     (if \<not> isOvernightEvent timeRange then timeRange
      else (case jsSplit (CHR ''-'') timeRange of
              p0 # _ \<Rightarrow> p0 @ ''-24:00''
            | [] \<Rightarrow> timeRange))"

record position =
  top_px :: jsnum
  height :: jsnum

text \<open>\<^verbatim>\<open>calculateEventPosition\<close>: 40 pixels an hour under a header of 30 pixels.\<close>

definition calculateEventPosition :: "string \<Rightarrow> position option" where
  "calculateEventPosition timeRange =
     (if timeRange = [] then None
      else (case jsSplit (CHR ''-'') timeRange of
              [p0, p1] \<Rightarrow>
                (let startTime = parseTimeString p0;
                     endTime = parseTimeString p1;
                     top = jsAdd (jsMul (jsAdd (hour startTime)
                                               (jsDiv (minute startTime) (Fin 60))) (Fin 40))
                                 (Fin 30);
                     durationHours =
                       jsAdd (jsSub (hour endTime) (hour startTime))
                             (jsDiv (jsSub (minute endTime) (minute startTime)) (Fin 60));
                     durationHours' =
                       (if jsLe durationHours (Fin 0)
                        then jsAdd (jsSub (jsSub (Fin 24) (hour startTime))
                                          (jsDiv (minute startTime) (Fin 60)))
                                   (jsAdd (hour endTime) (jsDiv (minute endTime) (Fin 60)))
                        else durationHours)
                 in Some \<lparr> top_px = top, height = jsMul durationHours' (Fin 40) \<rparr>)
            | _ \<Rightarrow> None))"

text \<open>The heights of the two blocks of an overnight event, as the week and day views
  compute them (the start day from \<^verbatim>\<open>getCurrentDayTimeRange\<close>, the following day
  from \<^verbatim>\<open>getNextDayTimeRange\<close>), added up.\<close>

definition splitHeightSum :: "string \<Rightarrow> jsnum option" where
  "splitHeightSum timeRange =
     (case (calculateEventPosition (getCurrentDayTimeRange timeRange),
            getNextDayTimeRange timeRange) of
        (Some p1, Some nextRange) \<Rightarrow>
          (case calculateEventPosition nextRange of
             Some p2 \<Rightarrow> Some (jsAdd (height p1) (height p2))
           | None \<Rightarrow> None)
      | _ \<Rightarrow> None)"

text \<open>The expression \<open>(endHour + endMinute/60 - startHour - startMinute/60) * 40\<close> of
  the specification, evaluated from left to right in doubles as JavaScript would.\<close>

definition specHeight :: "nat \<Rightarrow> nat \<Rightarrow> nat \<Rightarrow> nat \<Rightarrow> jsnum" where
  "specHeight sh sm eh em =
     jsMul (jsSub (jsSub (jsAdd (Fin (of_nat eh)) (jsDiv (Fin (of_nat em)) (Fin 60)))
                         (Fin (of_nat sh)))
                  (jsDiv (Fin (of_nat sm)) (Fin 60)))
           (Fin 40)"

text \<open>A computed number lies within \<open>eps\<close> of the exact value \<open>v\<close>.\<close>

definition closeTo :: "rat \<Rightarrow> jsnum option \<Rightarrow> rat \<Rightarrow> bool" where
  "closeTo eps x v =
     (case x of
        Some (Fin h) \<Rightarrow> \<bar>h - v\<bar> \<le> eps
      | _ \<Rightarrow> False)"

text \<open>The double that \<open>k + m / 60\<close> evaluates to for integers \<open>k\<close> and \<open>m\<close>: the
  quotient is rounded, then the sum.\<close>

definition doubleHours :: "int \<Rightarrow> int \<Rightarrow> rat" where
  "doubleHours k m = roundDouble (of_int k + roundDouble (of_int m / 60))"

subsection \<open>The wire format \<^verbatim>\<open>HH:MM-HH:MM\<close>\<close>

text \<open>The time ranges the backend delivers: zero-padded two-digit fields. These
  definitions build the string of a range from its four numbers; they are the domain of
  the statements about valid ranges, not part of the script.\<close>

definition digitChar :: "nat \<Rightarrow> char" where
  "digitChar d = char_of (48 + d)"

definition fmt2 :: "nat \<Rightarrow> string" where
  "fmt2 n = [digitChar (n div 10), digitChar (n mod 10)]"

definition clockStr :: "nat \<Rightarrow> nat \<Rightarrow> string" where
  "clockStr h m = fmt2 h @ '':'' @ fmt2 m"

definition timeRangeStr :: "nat \<Rightarrow> nat \<Rightarrow> nat \<Rightarrow> nat \<Rightarrow> string" where
  "timeRangeStr sh sm eh em = clockStr sh sm @ ''-'' @ clockStr eh em"

subsection \<open>Event blocks of the week and day views\<close>

record event =
  event_id :: nat
  date :: string
  time_range :: string
  title :: string
  is_completed :: bool

text \<open>One call of \<^verbatim>\<open>renderEventItem\<close> from a timeline view: the event, the column it
  is appended to, the position written into its style, and whether its label is the
  continuation label.\<close>

record block =
  blk_event :: event
  blk_column :: nat
  blk_position :: position
  blk_continuation :: bool

text \<open>\<^verbatim>\<open>Array.prototype.indexOf\<close>: \<open>None\<close> is the result -1.\<close>

fun indexOf :: "'a list \<Rightarrow> 'a \<Rightarrow> nat option" where
  "indexOf [] x = None"
| "indexOf (y # ys) x = (if y = x then Some 0 else map_option Suc (indexOf ys x))"

text \<open>\<^verbatim>\<open>calculateEventPosition\<close> on the result of \<^verbatim>\<open>getNextDayTimeRange\<close>, which
  may be \<^verbatim>\<open>null\<close>: \<^verbatim>\<open>!timeRange\<close> holds and the result is \<^verbatim>\<open>null\<close>.\<close>

definition calculateEventPositionOrNull :: "string option \<Rightarrow> position option" where
  "calculateEventPositionOrNull r =
     (case r of None \<Rightarrow> None | Some timeRange \<Rightarrow> calculateEventPosition timeRange)"

definition mkBlock :: "event \<Rightarrow> nat \<Rightarrow> bool \<Rightarrow> position option \<Rightarrow> block list" where
  "mkBlock e col cont pos =
     (case pos of
        None \<Rightarrow> []
      | Some p \<Rightarrow> [\<lparr> blk_event = e, blk_column = col, blk_position = p,
                     blk_continuation = cont \<rparr>])"

text \<open>\<^verbatim>\<open>renderWeekView\<close>, first pass: the events whose date is one of the seven
  \<open>dayDates\<close>.\<close>

definition weekOwnBlocks :: "string list \<Rightarrow> event \<Rightarrow> block list" where
  "weekOwnBlocks dayDates e =
     (case indexOf dayDates (date e) of
        None \<Rightarrow> []
      | Some dateIndex \<Rightarrow>
          (let isOvernight = isOvernightEvent (time_range e);
               currentDayTimeRange =
                 (if isOvernight then getCurrentDayTimeRange (time_range e)
                  else time_range e)
           in mkBlock e dateIndex False (calculateEventPosition currentDayTimeRange) @
              (if isOvernight \<and> dateIndex < 6
               then mkBlock e (dateIndex + 1) True
                      (calculateEventPositionOrNull (getNextDayTimeRange (time_range e)))
               else [])))"

text \<open>Second pass: the overnight events whose following day is one of the
  \<open>dayDates\<close>. The following day is computed with \<^verbatim>\<open>Date\<close>; it is the parameter
  \<open>nextDate\<close> here.\<close>

definition weekCarryBlocks :: "(string \<Rightarrow> string) \<Rightarrow> string list \<Rightarrow> event \<Rightarrow> block list" where
  "weekCarryBlocks nextDate dayDates e =
     (if \<not> isOvernightEvent (time_range e) then []
      else (case indexOf dayDates (nextDate (date e)) of
              None \<Rightarrow> []
            | Some nextDateIndex \<Rightarrow>
                mkBlock e nextDateIndex True
                  (calculateEventPositionOrNull (getNextDayTimeRange (time_range e)))))"

definition renderWeekView :: "(string \<Rightarrow> string) \<Rightarrow> string list \<Rightarrow> event list \<Rightarrow> block list" where
  "renderWeekView nextDate dayDates events =
     concat (map (weekOwnBlocks dayDates) events) @
     concat (map (weekCarryBlocks nextDate dayDates) events)"

text \<open>\<^verbatim>\<open>renderDayView\<close>: the events of the current date, then the overnight events
  of the date before. There is one column, numbered 0.\<close>

definition dayOwnBlocks :: "event \<Rightarrow> block list" where
  "dayOwnBlocks e =
     (let isOvernight = isOvernightEvent (time_range e);
          currentDayTimeRange =
            (if isOvernight then getCurrentDayTimeRange (time_range e) else time_range e)
      in mkBlock e 0 False (calculateEventPosition currentDayTimeRange))"

definition dayCarryBlocks :: "event \<Rightarrow> block list" where
  "dayCarryBlocks e =
     (if isOvernightEvent (time_range e)
      then mkBlock e 0 True
             (calculateEventPositionOrNull (getNextDayTimeRange (time_range e)))
      else [])"

definition renderDayView :: "string \<Rightarrow> string \<Rightarrow> event list \<Rightarrow> block list" where
  "renderDayView currentDateStr prevDateStr events =
     concat (map dayOwnBlocks (filter (\<lambda>e. date e = currentDateStr) events)) @
     concat (map dayCarryBlocks (filter (\<lambda>e. date e = prevDateStr) events))"

text \<open>The guard of \<^verbatim>\<open>calculateEventPosition\<close> and \<^verbatim>\<open>isOvernightEvent\<close>: the range is
  empty or does not split into exactly two pieces at \<^verbatim>\<open>-\<close>.\<close>

definition wrongTokenCount :: "string \<Rightarrow> bool" where
  "wrongTokenCount timeRange =
     (timeRange = [] \<or> length (jsSplit (CHR ''-'') timeRange) \<noteq> 2)"

definition eventAt :: "string \<Rightarrow> string \<Rightarrow> event" where
  "eventAt d r =
     \<lparr> event_id = 1, date = d, time_range = r, title = ''task'', is_completed = False \<rparr>"

section \<open>MutationGuard and the event-list fetch\<close>

subsection \<open>State\<close>

text \<open>An \<^verbatim>\<open>.event-item\<close> element of the document, with what the handlers read and
  write: its node identity, \<^verbatim>\<open>data-event-id\<close>, \<^verbatim>\<open>data-date\<close>, the class
  \<^verbatim>\<open>completing\<close>, four style properties and its buttons. The button labels are the
  circle and the cross that \<^verbatim>\<open>renderEventItem\<close> writes and the three dots of a disabled
  button.\<close>

datatype btn_class = CompleteButton | DeleteButton

datatype btn_text = Circle | Cross | Ellipsis

record button =
  btn_class :: btn_class
  disabled :: bool
  textContent :: btn_text

record element =
  node :: nat
  data_event_id :: nat
  data_date :: string
  completing :: bool
  opacity :: string
  pointerEvents :: string
  transition :: string
  transform :: string
  buttons :: "button list"

text \<open>What the script sends out, in the order in which it does: requests
  (\<^verbatim>\<open>POST /api/events/{id}/complete\<close> with its body, \<^verbatim>\<open>DELETE /api/completed-tasks/{id}\<close>,
  \<^verbatim>\<open>GET /api/events\<close>), timers with their delay in milliseconds, blocking alerts,
  notifications (with the flag of the type \<^verbatim>\<open>error\<close>) and the confirmation prompt.
  The texts shown to the user are named, not spelled out.\<close>

datatype request =
  POST_complete nat bool string
| DELETE_completed_task nat
| GET_events

datatype timer = RemoveElement nat | ReloadViews | RetryLoadEvents | AbortFetch

datatype msg =
  MsgConfirmDelete
| MsgTaskDeleted
| MsgDeleteFailed string
| MsgDeleteError
| MsgEventCompleted
| MsgUpdateFailed string
| MsgUpdateError
| MsgMaxRetries
| MsgLoadFailed string

datatype effect =
  Fetch request
| SetTimeout nat timer
| Alert msg
| Notification msg bool
| Confirm msg

text \<open>The globals of the script and the parts of the page it touches. \<open>todayStr\<close> is
  \<^verbatim>\<open>formatDate(new Date())\<close>.\<close>

record app =
  processingEvents :: "nat set"
  completedEvents :: "nat set"
  isLoadingEvents :: bool
  loadEventsRetryCount :: nat
  document :: "element list"
  detailsHidden :: bool
  loadingShown :: bool
  todayStr :: string
  trace :: "effect list"

definition MAX_RETRY_COUNT :: nat where
  "MAX_RETRY_COUNT = 3"

text \<open>The body \<^verbatim>\<open>data\<close> of a mutation response, and how a request ends: with a body
  that parsed as JSON, or with a rejected promise (transport error, unreadable body).\<close>

record response_data =
  status :: string
  message :: string

datatype outcome = Json response_data | Rejected

record js_error =
  err_name :: string
  err_message :: string

subsection \<open>Completion\<close>

text \<open>The optimistic fade applied to every element of the event, in
  \<^verbatim>\<open>markEventCompleted\<close> and in \<^verbatim>\<open>deleteCompletedTask\<close>.\<close>

definition fadeOut :: "element \<Rightarrow> element" where
  "fadeOut e =
     e\<lparr> opacity := ''0.3'', pointerEvents := ''none'', transition := ''all 0.5s ease'',
        transform := ''translateX(100%)'',
        buttons := map (\<lambda>b. b\<lparr> disabled := True, textContent := Ellipsis \<rparr>) (buttons e) \<rparr>"

definition removalTimers :: "element list \<Rightarrow> effect list" where
  "removalTimers es = map (\<lambda>e. SetTimeout 500 (RemoveElement (node e))) es"

definition markEventCompleted :: "nat \<Rightarrow> bool \<Rightarrow> app \<Rightarrow> app" where
  "markEventCompleted eventId completed s =
     (if eventId \<in> completedEvents s then s
      else if eventId \<in> processingEvents s then s
      else
        (let eventElements = filter (\<lambda>e. data_event_id e = eventId) (document s);
             eventDate =
               (case eventElements of
                  [] \<Rightarrow> todayStr s
                | e # _ \<Rightarrow> if data_date e = [] then todayStr s else data_date e)
         in s\<lparr> processingEvents := insert eventId (processingEvents s),
               document :=
                 map (\<lambda>e. if data_event_id e = eventId
                           then fadeOut (e\<lparr> completing := True \<rparr>) else e) (document s),
               detailsHidden := True,
               completedEvents := insert eventId (completedEvents s),
               trace := trace s @ removalTimers eventElements @
                        [Fetch (POST_complete eventId completed eventDate)] \<rparr>))"

text \<open>\<^verbatim>\<open>element.querySelector('.complete-button')\<close> followed by the two assignments:
  the first button of that class is enabled and gets its circle back.\<close>

fun enableComplete :: "button list \<Rightarrow> button list" where
  "enableComplete [] = []"
| "enableComplete (b # bs) =
     (if btn_class b = CompleteButton
      then b\<lparr> disabled := False, textContent := Circle \<rparr> # bs
      else b # enableComplete bs)"

fun firstComplete :: "button list \<Rightarrow> button option" where
  "firstComplete [] = None"
| "firstComplete (b # bs) = (if btn_class b = CompleteButton then Some b else firstComplete bs)"

text \<open>The rollback of the failure paths, on \<^verbatim>\<open>.event-item.completing\<close>.\<close>

definition restoreElement :: "element \<Rightarrow> element" where
  "restoreElement e =
     (if completing e
      then e\<lparr> completing := False, opacity := ''1'', pointerEvents := ''auto'',
              transform := ''translateX(0)'', buttons := enableComplete (buttons e) \<rparr>
      else e)"

definition completeThen :: "nat \<Rightarrow> response_data \<Rightarrow> app \<Rightarrow> app" where
  "completeThen eventId data s =
     (let s1 = s\<lparr> processingEvents := processingEvents s - {eventId} \<rparr> in
      if status data = ''success''
      then s1\<lparr> trace := trace s1 @ [Notification MsgEventCompleted False,
                                     SetTimeout 700 ReloadViews] \<rparr>
      else s1\<lparr> completedEvents := completedEvents s1 - {eventId},
               trace := trace s1 @ [Alert (MsgUpdateFailed (message data))],
               document := map restoreElement (document s1) \<rparr>)"

definition completeCatch :: "nat \<Rightarrow> app \<Rightarrow> app" where
  "completeCatch eventId s =
     s\<lparr> processingEvents := processingEvents s - {eventId},
        completedEvents := completedEvents s - {eventId},
        trace := trace s @ [Alert MsgUpdateError],
        document := map restoreElement (document s) \<rparr>"

definition completeSettled :: "nat \<Rightarrow> outcome \<Rightarrow> app \<Rightarrow> app" where
  "completeSettled eventId out s =
     (case out of
        Json data \<Rightarrow> completeThen eventId data s
      | Rejected \<Rightarrow> completeCatch eventId s)"

text \<open>A failure response or a transport error.\<close>

fun failed :: "outcome \<Rightarrow> bool" where
  "failed (Json data) = (status data \<noteq> ''success'')"
| "failed Rejected = True"

text \<open>The 500 ms timer of the optimistic fade: the element leaves the document.\<close>

definition removeElement :: "nat \<Rightarrow> app \<Rightarrow> app" where
  "removeElement n s = s\<lparr> document := filter (\<lambda>e. node e \<noteq> n) (document s) \<rparr>"

subsection \<open>Deletion\<close>

definition deleteCompletedTask :: "nat \<Rightarrow> app \<Rightarrow> app" where
  "deleteCompletedTask taskId s =
     (if taskId \<in> processingEvents s then s
      else
        (let eventElements = filter (\<lambda>e. data_event_id e = taskId) (document s)
         in s\<lparr> processingEvents := insert taskId (processingEvents s),
               document :=
                 map (\<lambda>e. if data_event_id e = taskId then fadeOut e else e) (document s),
               detailsHidden := True,
               trace := trace s @ removalTimers eventElements @
                        [Fetch (DELETE_completed_task taskId)] \<rparr>))"

definition deleteThen :: "nat \<Rightarrow> response_data \<Rightarrow> app \<Rightarrow> app" where
  "deleteThen taskId data s =
     (let s1 = s\<lparr> processingEvents := processingEvents s - {taskId} \<rparr> in
      if status data = ''success''
      then s1\<lparr> trace := trace s1 @ [Notification MsgTaskDeleted False,
                                     SetTimeout 500 ReloadViews] \<rparr>
      else s1\<lparr> completedEvents := completedEvents s1 - {taskId},
               trace := trace s1 @ [Alert (MsgDeleteFailed (message data))] \<rparr>)"

definition deleteCatch :: "nat \<Rightarrow> app \<Rightarrow> app" where
  "deleteCatch taskId s =
     s\<lparr> processingEvents := processingEvents s - {taskId},
        completedEvents := completedEvents s - {taskId},
        trace := trace s @ [Alert MsgDeleteError] \<rparr>"

subsection \<open>The click handlers\<close>

text \<open>The handlers that \<^verbatim>\<open>renderEventItem\<close> attaches to the buttons of an event item
  (\<open>n\<close> is the node of the item, \<open>eventId\<close> the id of its event, \<open>confirmed\<close> the
  user's answer to \<^verbatim>\<open>confirm\<close>), and those that \<^verbatim>\<open>showEventDetails\<close> attaches to the
  buttons of the details panel.\<close>

definition completeButtonClick :: "nat \<Rightarrow> app \<Rightarrow> app" where
  "completeButtonClick eventId s =
     (if eventId \<in> completedEvents s then s else markEventCompleted eventId True s)"

definition deleteButtonClick :: "nat \<Rightarrow> nat \<Rightarrow> bool \<Rightarrow> app \<Rightarrow> app" where
  "deleteButtonClick n eventId confirmed s =
     (if eventId \<in> completedEvents s then s
      else
        (let s1 = s\<lparr> trace := trace s @ [Confirm MsgConfirmDelete] \<rparr> in
         if \<not> confirmed then s1
         else deleteCompletedTask eventId
                (s1\<lparr> completedEvents := insert eventId (completedEvents s1),
                     document :=
                       map (\<lambda>e. if node e = n
                                 then e\<lparr> opacity := ''0.3'', pointerEvents := ''none'',
                                         transition := ''all 0.5s ease'',
                                         transform := ''translateX(100%)'',
                                         buttons :=
                                           map (\<lambda>b. if btn_class b = DeleteButton
                                                     then b\<lparr> disabled := True,
                                                             textContent := Ellipsis \<rparr>
                                                     else b) (buttons e) \<rparr>
                                 else e) (document s1) \<rparr>)))"

definition detailsCompleteClick :: "nat \<Rightarrow> app \<Rightarrow> app" where
  "detailsCompleteClick eventId s = markEventCompleted eventId True s"

definition detailsDeleteClick :: "nat \<Rightarrow> app \<Rightarrow> app" where
  "detailsDeleteClick eventId s = deleteCompletedTask eventId s"

subsection \<open>Loading the event list\<close>

text \<open>\<^verbatim>\<open>String.prototype.includes\<close>.\<close>

fun startsWith :: "string \<Rightarrow> string \<Rightarrow> bool" where
  "startsWith s [] = True"
| "startsWith [] (p # ps) = False"
| "startsWith (x # xs) (p # ps) = (x = p \<and> startsWith xs ps)"

fun includesStr :: "string \<Rightarrow> string \<Rightarrow> bool" where
  "includesStr [] sub = (sub = [])"
| "includesStr (x # xs) sub = (startsWith (x # xs) sub \<or> includesStr xs sub)"

text \<open>\<^verbatim>\<open>loadEvents(retry)\<close> up to the call of \<^verbatim>\<open>fetch\<close>. The query string of the
  request, computed from the current view and date, is not modelled.\<close>

definition loadEvents :: "bool \<Rightarrow> app \<Rightarrow> app" where
  "loadEvents retry s =
     (if isLoadingEvents s \<and> \<not> retry then s
      else
        (let s1 = s\<lparr> isLoadingEvents := True \<rparr>;
             s2 = (if retry then s1\<lparr> loadEventsRetryCount := loadEventsRetryCount s1 + 1 \<rparr>
                   else s1\<lparr> loadEventsRetryCount := 0 \<rparr>)
         in if retry \<and> loadEventsRetryCount s2 > MAX_RETRY_COUNT
            then s2\<lparr> isLoadingEvents := False, loadEventsRetryCount := 0,
                     loadingShown := False,
                     trace := trace s2 @ [Notification MsgMaxRetries True] \<rparr>
            else s2\<lparr> detailsHidden := True, loadingShown := True,
                     trace := trace s2 @ [SetTimeout 10000 AbortFetch, Fetch GET_events] \<rparr>))"

text \<open>The test of the \<^verbatim>\<open>catch\<close> handler for a timeout or a network error.\<close>

definition transient :: "js_error \<Rightarrow> bool" where
  "transient err =
     (err_name err = ''AbortError'' \<or> includesStr (err_message err) ''network'' \<or>
      includesStr (err_message err) ''failed'')"

definition loadEventsCatch :: "js_error \<Rightarrow> app \<Rightarrow> app" where
  "loadEventsCatch err s =
     (if transient err
      then s\<lparr> trace := trace s @ [SetTimeout 1000 RetryLoadEvents] \<rparr>
      else s\<lparr> isLoadingEvents := False, loadEventsRetryCount := 0, loadingShown := False,
              trace := trace s @ [Notification (MsgLoadFailed (err_message err)) True] \<rparr>)"

text \<open>One failed attempt: the \<^verbatim>\<open>catch\<close> handler runs, and when it has set the retry
  timer, the timer fires and calls \<^verbatim>\<open>loadEvents(true)\<close>. \<open>failedAttempts\<close> runs one such
  round for each error of a list.\<close>

definition failedAttempt :: "js_error \<Rightarrow> app \<Rightarrow> app" where
  "failedAttempt err s =
     (if transient err then loadEvents True (loadEventsCatch err s)
      else loadEventsCatch err s)"

fun failedAttempts :: "js_error list \<Rightarrow> app \<Rightarrow> app" where
  "failedAttempts [] s = s"
| "failedAttempts (err # errs) s = failedAttempts errs (failedAttempt err s)"

subsection \<open>The handlers as steps of the event loop\<close>

definition deleteSettled :: "nat \<Rightarrow> outcome \<Rightarrow> app \<Rightarrow> app" where
  "deleteSettled taskId out s =
     (case out of
        Json data \<Rightarrow> deleteThen taskId data s
      | Rejected \<Rightarrow> deleteCatch taskId s)"

text \<open>The handlers above run one at a time, to completion. An \<open>action\<close> names one run of
  one handler, \<open>step\<close> runs it, and \<open>run\<close> runs a list of them in order.\<close>

datatype action =
  ClickComplete nat
| ClickDetailsComplete nat
| ClickDelete nat nat bool
| ClickDetailsDelete nat
| CompleteSettled nat outcome
| DeleteSettled nat outcome
| TimerRemove nat
| LoadEvents bool
| LoadFailed js_error

fun step :: "action \<Rightarrow> app \<Rightarrow> app" where
  "step (ClickComplete i) s = completeButtonClick i s"
| "step (ClickDetailsComplete i) s = detailsCompleteClick i s"
| "step (ClickDelete n i a) s = deleteButtonClick n i a s"
| "step (ClickDetailsDelete i) s = detailsDeleteClick i s"
| "step (CompleteSettled i out) s = completeSettled i out s"
| "step (DeleteSettled i out) s = deleteSettled i out s"
| "step (TimerRemove n) s = removeElement n s"
| "step (LoadEvents r) s = loadEvents r s"
| "step (LoadFailed err) s = loadEventsCatch err s"

fun run :: "action list \<Rightarrow> app \<Rightarrow> app" where
  "run [] s = s"
| "run (st # sts) s = run sts (step st s)"

text \<open>The actions that process a response for the id \<open>i\<close>.\<close>

fun settles :: "nat \<Rightarrow> action \<Rightarrow> bool" where
  "settles i (CompleteSettled j out) = (j = i)"
| "settles i (DeleteSettled j out) = (j = i)"
| "settles i _ = False"

subsection \<open>Reading the trace\<close>


fun isCompletePost :: "nat \<Rightarrow> effect \<Rightarrow> bool" where
  "isCompletePost eventId (Fetch (POST_complete i c d)) = (i = eventId)"
| "isCompletePost eventId _ = False"

definition completionPosts :: "nat \<Rightarrow> effect list \<Rightarrow> nat" where
  "completionPosts eventId tr = length (filter (isCompletePost eventId) tr)"

definition eventFetches :: "effect list \<Rightarrow> nat" where
  "eventFetches tr = length (filter (\<lambda>x. x = Fetch GET_events) tr)"

fun retryDelay :: "effect \<Rightarrow> nat option" where
  "retryDelay (SetTimeout d RetryLoadEvents) = Some d"
| "retryDelay _ = None"

definition retryDelays :: "effect list \<Rightarrow> nat list" where
  "retryDelays tr = List.map_filter retryDelay tr"

text \<open>The effects that a step from \<open>s\<close> to \<open>s'\<close> has added.\<close>

definition newEffects :: "app \<Rightarrow> app \<Rightarrow> effect list" where
  "newEffects s s' = drop (length (trace s)) (trace s')"

subsection \<open>Example states\<close>

definition idle :: app where
  "idle = \<lparr> processingEvents = {}, completedEvents = {}, isLoadingEvents = False,
           loadEventsRetryCount = 0, document = [], detailsHidden = True,
           loadingShown = False, todayStr = ''2024-06-02'', trace = [] \<rparr>"

definition item :: "nat \<Rightarrow> nat \<Rightarrow> btn_class \<Rightarrow> btn_text \<Rightarrow> element" where
  "item n i c t =
     \<lparr> node = n, data_event_id = i, data_date = ''2024-06-01'', completing = False,
       opacity = [], pointerEvents = [], transition = [], transform = [],
       buttons = [\<lparr> btn_class = c, disabled = False, textContent = t \<rparr>] \<rparr>"

definition abortError :: js_error where
  "abortError = \<lparr> err_name = ''AbortError'', err_message = ''The user aborted a request.'' \<rparr>"

section \<open>Properties of the numbers\<close>

subsection \<open>The binary exponent\<close>

lemma powi_less_imp_less:
  assumes "(2::rat) powi a < 2 powi b"
  shows "a < b"
proof (rule ccontr)
  assume "\<not> a < b"
  then have "(2::rat) powi b \<le> 2 powi a" by (intro power_int_increasing) simp_all
  with assms show False by simp
qed

lemma bitlen_powi:
  assumes "0 < (p::int)"
  shows "(2::rat) powi (bitlen p - 1) \<le> of_int p" "(of_int p :: rat) < 2 powi (bitlen p)"
proof -
  from bitlen_bounds [OF assms]
  have a: "2 ^ nat (bitlen p - 1) \<le> p" and b: "p < 2 ^ nat (bitlen p)" by simp_all
  have c: "1 \<le> bitlen p"
    using assms bitlen_eq_zero_iff [of p] bitlen_nonneg [of p] by linarith
  from a have "(of_int (2 ^ nat (bitlen p - 1)) :: rat) \<le> of_int p"
    by (simp only: of_int_le_iff)
  then show "(2::rat) powi (bitlen p - 1) \<le> of_int p"
    using c by (simp add: power_int_nonneg_exp)
  from b have "(of_int p :: rat) < of_int (2 ^ nat (bitlen p))"
    by (simp only: of_int_less_iff)
  then show "(of_int p :: rat) < 2 powi (bitlen p)"
    using c by (simp add: power_int_nonneg_exp)
qed

lemma ilog2_bounds:
  assumes "0 < x"
  shows "2 powi (ilog2 x) \<le> x" "x < 2 powi (ilog2 x + 1)"
proof -
  obtain p q where pq: "quotient_of x = (p, q)" by (cases "quotient_of x")
  then have q: "0 < q" by (rule quotient_of_denom_pos)
  have x: "x = of_int p / of_int q" using pq by (rule quotient_of_div)
  from assms x q have p: "0 < p" by (simp add: zero_less_divide_iff)
  let ?d = "bitlen p - bitlen q"
  have qr: "(0::rat) < of_int q" using q by simp
  have lo: "(2::rat) powi (?d - 1) < x"
  proof -
    have "(2::rat) powi (?d - 1) * of_int q < 2 powi (?d - 1) * 2 powi (bitlen q)"
      using bitlen_powi(2) [OF q] by (simp add: zero_less_power_int)
    also have "\<dots> = 2 powi (bitlen p - 1)"
      by (simp add: power_int_add [symmetric])
    also have "\<dots> \<le> of_int p" using bitlen_powi(1) [OF p] .
    finally show ?thesis using qr by (simp add: x pos_less_divide_eq)
  qed
  have hi: "x < (2::rat) powi (?d + 1)"
  proof -
    have "of_int p < (2::rat) powi (bitlen p)" using bitlen_powi(2) [OF p] .
    also have "\<dots> = 2 powi (?d + 1) * 2 powi (bitlen q - 1)"
      by (simp add: power_int_add [symmetric])
    also have "\<dots> \<le> 2 powi (?d + 1) * of_int q"
      using bitlen_powi(1) [OF q] by (simp add: zero_less_power_int)
    finally show ?thesis using qr by (simp add: x pos_divide_less_eq)
  qed
  show "2 powi (ilog2 x) \<le> x"
    using lo by (simp add: ilog2_def pq Let_def)
  show "x < 2 powi (ilog2 x + 1)"
    using hi by (auto simp: ilog2_def pq Let_def)
qed

text \<open>\<open>ilog2\<close> is the binary exponent, and the only one.\<close>

lemma ilog2_unique:
  assumes "2 powi e \<le> x" "x < 2 powi (e + 1)"
  shows "ilog2 x = e"
proof -
  have "(0::rat) < 2 powi e" by (rule zero_less_power_int) simp
  with assms(1) have pos: "0 < x" by linarith
  note b = ilog2_bounds [OF pos]
  have "(2::rat) powi e < 2 powi (ilog2 x + 1)" using assms(1) b(2) by simp
  then have "e < ilog2 x + 1" by (rule powi_less_imp_less)
  moreover have "(2::rat) powi (ilog2 x) < 2 powi (e + 1)" using assms(2) b(1) by simp
  then have "ilog2 x < e + 1" by (rule powi_less_imp_less)
  ultimately show ?thesis by simp
qed

subsection \<open>Rounding\<close>

lemma roundHalfEven_near: "\<bar>of_int (roundHalfEven y) - y\<bar> \<le> 1 / 2"
proof -
  have "of_int \<lfloor>y\<rfloor> \<le> y" "y < of_int \<lfloor>y\<rfloor> + 1" by linarith+
  then show ?thesis by (auto simp: roundHalfEven_def Let_def)
qed

lemma roundHalfEven_int: "roundHalfEven (of_int k) = k"
  by (simp add: roundHalfEven_def)

lemma roundDouble_zero: "roundDouble 0 = 0"
  by (simp add: roundDouble_def)

lemma roundDouble_quantum:
  assumes "x \<noteq> 0"
  shows "\<bar>roundDouble x - x\<bar> \<le> 2 powi (max (ilog2 \<bar>x\<bar>) (- 1022) - 52) / 2"
proof -
  let ?q = "(2::rat) powi (max (ilog2 \<bar>x\<bar>) (- 1022) - 52)"
  have q: "0 < ?q" by (rule zero_less_power_int) simp
  have "roundDouble x - x = (of_int (roundHalfEven (x / ?q)) - x / ?q) * ?q"
    using assms q by (simp add: roundDouble_def Let_def algebra_simps)
  then have "\<bar>roundDouble x - x\<bar> = \<bar>of_int (roundHalfEven (x / ?q)) - x / ?q\<bar> * ?q"
    using q by (simp add: abs_mult)
  also have "\<dots> \<le> (1 / 2) * ?q"
    using roundHalfEven_near [of "x / ?q"] q by (intro mult_right_mono) simp_all
  finally show ?thesis by simp
qed

text \<open>In the normal range the relative error of rounding is at most \<open>2\<^sup>-\<^sup>5\<^sup>3\<close>.\<close>

lemma roundDouble_error:
  assumes "2 powi (- 1022) \<le> \<bar>x\<bar>"
  shows "\<bar>roundDouble x - x\<bar> \<le> \<bar>x\<bar> / 2 ^ 53"
proof -
  have "(0::rat) < 2 powi (- 1022)" by (rule zero_less_power_int) simp
  with assms have pos: "0 < \<bar>x\<bar>" by linarith
  then have nz: "x \<noteq> 0" by simp
  note b = ilog2_bounds [OF pos]
  have "(2::rat) powi (- 1022) < 2 powi (ilog2 \<bar>x\<bar> + 1)" using assms b(2) by simp
  then have "- 1022 < ilog2 \<bar>x\<bar> + 1" by (rule powi_less_imp_less)
  then have m: "max (ilog2 \<bar>x\<bar>) (- 1022) = ilog2 \<bar>x\<bar>" by simp
  have "\<bar>roundDouble x - x\<bar> \<le> 2 powi (ilog2 \<bar>x\<bar> - 52) / 2"
    using roundDouble_quantum [OF nz] by (simp only: m)
  also have "\<dots> = 2 powi (ilog2 \<bar>x\<bar>) / 2 ^ 53"
    by (simp add: power_int_diff)
  also have "\<dots> \<le> \<bar>x\<bar> / 2 ^ 53"
    using b(1) by (simp add: divide_right_mono)
  finally show ?thesis .
qed

lemma roundDouble_error_le:
  assumes "1 / 1024 \<le> \<bar>x\<bar>" "\<bar>x\<bar> \<le> c"
  shows "\<bar>roundDouble x - x\<bar> \<le> c * (1 / 2 ^ 53)"
proof -
  have "(2::rat) powi (- 1022) \<le> 2 powi (- 10)"
    by (intro power_int_increasing) simp_all
  also have "\<dots> = 1 / 1024" by (simp add: power_int_minus_divide)
  finally have "2 powi (- 1022) \<le> \<bar>x\<bar>" using assms(1) by simp
  from roundDouble_error [OF this] have "\<bar>roundDouble x - x\<bar> \<le> \<bar>x\<bar> / 2 ^ 53" .
  also have "\<dots> \<le> c / 2 ^ 53" using assms(2) by (simp add: divide_right_mono)
  finally show ?thesis by simp
qed

lemma roundDouble_near: "\<bar>roundDouble x - x\<bar> \<le> (\<bar>x\<bar> + 1) / 2"
proof (cases "x = 0")
  case True
  then show ?thesis by (simp add: roundDouble_zero)
next
  case False
  then have pos: "0 < \<bar>x\<bar>" by simp
  note b = ilog2_bounds [OF pos]
  let ?g = "max (ilog2 \<bar>x\<bar>) (- 1022) - 52"
  have "(2::rat) powi ?g \<le> \<bar>x\<bar> + 1"
  proof (cases "- 1022 \<le> ilog2 \<bar>x\<bar>")
    case True
    then have "(2::rat) powi ?g \<le> 2 powi (ilog2 \<bar>x\<bar>)"
      by (intro power_int_increasing) simp_all
    with b(1) show ?thesis by linarith
  next
    case False
    then have "(2::rat) powi ?g \<le> 2 powi 0"
      by (intro power_int_increasing) simp_all
    then show ?thesis using pos by simp
  qed
  then have "(2::rat) powi ?g / 2 \<le> (\<bar>x\<bar> + 1) / 2" by simp
  with roundDouble_quantum [OF False] show ?thesis by (rule order_trans)
qed

text \<open>A number \<open>m \<sqdot> 2\<^sup>t\<close> with fewer than 53 bits above \<open>2\<^sup>t\<close> is a double: rounding leaves it
  as it is. So do the integers below \<open>2\<^sup>5\<^sup>3\<close>.\<close>

lemma roundDouble_exact:
  assumes x: "x = of_int m * 2 powi t" and t: "- 1074 \<le> t" and s: "\<bar>x\<bar> < 2 powi (t + 53)"
  shows "roundDouble x = x"
proof (cases "x = 0")
  case True
  then show ?thesis by (simp add: roundDouble_zero)
next
  case False
  then have pos: "0 < \<bar>x\<bar>" by simp
  note b = ilog2_bounds [OF pos]
  let ?g = "max (ilog2 \<bar>x\<bar>) (- 1022) - 52"
  have "(2::rat) powi (ilog2 \<bar>x\<bar>) < 2 powi (t + 53)" using b(1) s by simp
  then have "ilog2 \<bar>x\<bar> < t + 53" by (rule powi_less_imp_less)
  with t have g: "?g \<le> t" by simp
  have "x / 2 powi ?g = of_int m * 2 powi (t - ?g)"
    by (simp add: x power_int_diff)
  also have "\<dots> = of_int (m * 2 ^ nat (t - ?g))"
    using g by (simp add: power_int_nonneg_exp)
  finally have "roundHalfEven (x / 2 powi ?g) = m * 2 ^ nat (t - ?g)"
    by (simp only: roundHalfEven_int)
  then have "roundDouble x = of_int (m * 2 ^ nat (t - ?g)) * 2 powi ?g"
    using False by (simp add: roundDouble_def Let_def)
  also have "\<dots> = of_int m * (2 powi (t - ?g) * 2 powi ?g)"
    using g by (simp add: power_int_nonneg_exp)
  also have "\<dots> = x"
    by (simp add: x power_int_add [symmetric])
  finally show ?thesis .
qed

lemma roundDouble_int:
  assumes "\<bar>k\<bar> < 2 ^ 53"
  shows "roundDouble (of_int k) = of_int k"
proof (rule roundDouble_exact [where m = k and t = 0])
  show "(of_int k :: rat) = of_int k * 2 powi 0" by simp
  show "- 1074 \<le> (0::int)" by simp
  have "(of_int \<bar>k\<bar> :: rat) < of_int (2 ^ 53)" using assms by (simp only: of_int_less_iff)
  then show "\<bar>of_int k :: rat\<bar> < 2 powi (0 + 53)" by simp
qed

subsection \<open>Numbers far from overflow\<close>

lemma overflowBound_power: "overflowBound = 2 ^ 1024"
  by (simp add: overflowBound_def)

lemma toNumber_small:
  assumes "\<bar>x\<bar> \<le> 2 ^ 20"
  shows "toNumber x = Fin (roundDouble x)"
proof -
  have "\<bar>x\<bar> \<le> 1048576" using assms by simp
  then have "\<bar>roundDouble x\<bar> \<le> 2097152"
    using roundDouble_near [of x] by (auto simp: abs_if split: if_splits)
  also have "\<dots> < overflowBound" by (simp add: overflowBound_def)
  finally have "\<bar>roundDouble x\<bar> < overflowBound" .
  then have "\<not> overflowBound \<le> roundDouble x" "\<not> roundDouble x \<le> - overflowBound"
    by linarith+
  then show ?thesis by (simp add: toNumber_def Let_def)
qed

lemma toNumber_int:
  assumes "\<bar>k\<bar> \<le> 2 ^ 20"
  shows "toNumber (of_int k) = Fin (of_int k)"
proof -
  have "(of_int \<bar>k\<bar> :: rat) \<le> of_int (2 ^ 20)" using assms by (simp only: of_int_le_iff)
  then have a: "\<bar>of_int k :: rat\<bar> \<le> 2 ^ 20" by simp
  have "\<bar>k\<bar> < 2 ^ 53" using assms by simp
  then show ?thesis by (simp add: toNumber_small [OF a] roundDouble_int)
qed

subsection \<open>Hours from an hour and a minute count\<close>

lemma jsHours:
  assumes "\<bar>k\<bar> \<le> 1000" "\<bar>m\<bar> \<le> 1000"
  shows "jsAdd (Fin (of_int k)) (jsDiv (Fin (of_int m)) (Fin 60)) = Fin (doubleHours k m)"
proof -
  have m: "\<bar>of_int m :: rat\<bar> \<le> 1000" using assms(2)
    by (metis of_int_abs of_int_le_iff of_int_numeral)
  have k: "\<bar>of_int k :: rat\<bar> \<le> 1000" using assms(1)
    by (metis of_int_abs of_int_le_iff of_int_numeral)
  define a :: rat where "a = of_int m / 60"
  have a: "\<bar>a\<bar> \<le> 1000" using m by (simp add: a_def)
  then have a': "\<bar>of_int m / 60 :: rat\<bar> \<le> 2 ^ 20" by (simp add: a_def)
  have d: "\<bar>roundDouble a\<bar> \<le> 2000"
    using roundDouble_near [of a] a by (auto simp: abs_if split: if_splits)
  have "\<bar>of_int k + roundDouble a\<bar> \<le> 1048576"
    using k d by (auto simp: abs_if split: if_splits)
  then have x: "\<bar>of_int k + roundDouble (of_int m / 60)\<bar> \<le> 2 ^ 20"
    by (simp add: a_def)
  show ?thesis
    by (simp add: toNumber_small [OF a'] toNumber_small [OF x] doubleHours_def)
qed

text \<open>The arithmetic of a positive duration. For an hour difference \<open>k\<close> in 0..24 and a
  minute difference \<open>m\<close> in -59..59 that make at least one minute together, the double
  \<open>k + m / 60\<close> is positive, and forty times it, rounded, is within \<open>2040 \<sqdot> 2\<^sup>-\<^sup>5\<^sup>3\<close> of the
  exact height.\<close>

lemma doubleHours_height:
  assumes k: "0 \<le> k" "k \<le> 24" and m: "\<bar>m\<bar> \<le> 59" and pos: "1 \<le> 60 * k + m"
  shows "0 < doubleHours k m" "doubleHours k m \<le> 25"
    "\<bar>roundDouble (doubleHours k m * 40) - (of_int k + of_int m / 60) * 40\<bar> \<le> 2040 / 2 ^ 53"
    "1 / 2 \<le> roundDouble (doubleHours k m * 40)"
    "roundDouble (doubleHours k m * 40) \<le> 1001"
proof -
  define eps :: rat where "eps = 1 / 2 ^ 53"
  define a :: rat where "a = of_int m / 60"
  define kk :: rat where "kk = of_int k"
  define d where "d = roundDouble a"
  define x where "x = kk + d"
  define s where "s = roundDouble x"
  define y where "y = s * 40"
  define h where "h = roundDouble y"
  have eps: "0 < eps" "eps \<le> 1 / 1000000" by (simp_all add: eps_def)
  have kr: "0 \<le> kk" "kk \<le> 24" using k by (simp_all add: kk_def)
  have mr: "\<bar>of_int m :: rat\<bar> \<le> 59" using m
    by (metis of_int_abs of_int_le_iff of_int_numeral)
  have "(of_int (1::int) :: rat) \<le> of_int (60 * k + m)" using pos by (simp only: of_int_le_iff)
  then have posr: "1 \<le> 60 * kk + 60 * a" by (simp add: kk_def a_def)
  have ab: "\<bar>a\<bar> \<le> 59 / 60" using mr by (simp add: a_def)
  have de: "\<bar>d - a\<bar> \<le> eps"
  proof (cases "m = 0")
    case True
    then show ?thesis using eps by (simp add: d_def a_def roundDouble_zero)
  next
    case False
    then have "1 \<le> \<bar>m\<bar>" by simp
    then have "(of_int (1::int) :: rat) \<le> of_int \<bar>m\<bar>" by (simp only: of_int_le_iff)
    then have "(1::rat) \<le> \<bar>of_int m\<bar>" by simp
    then have lo: "1 / 1024 \<le> \<bar>a\<bar>" by (simp add: a_def)
    have "\<bar>a\<bar> \<le> 1" using ab by simp
    from roundDouble_error_le [OF lo this] show ?thesis by (simp add: d_def eps_def)
  qed
  have xb: "1 / 1024 \<le> \<bar>x\<bar>" "\<bar>x\<bar> \<le> 25"
    using posr kr ab de eps unfolding x_def by (auto simp: abs_if split: if_splits)
  have se: "\<bar>s - x\<bar> \<le> 25 * eps"
    using roundDouble_error_le [OF xb] by (simp add: s_def eps_def)
  have sS: "\<bar>s - (kk + a)\<bar> \<le> 26 * eps"
    using se de unfolding x_def by (auto simp: abs_if split: if_splits)
  have sb: "1 / 64 \<le> s" "s \<le> 25"
    using sS posr kr ab eps by (auto simp: abs_if split: if_splits)
  have yb: "1 / 1024 \<le> \<bar>y\<bar>" "\<bar>y\<bar> \<le> 1000"
    using sb unfolding y_def by (auto simp: abs_if split: if_splits)
  have he: "\<bar>h - y\<bar> \<le> 1000 * eps"
    using roundDouble_error_le [OF yb] by (simp add: h_def eps_def)
  have hS: "\<bar>h - (kk + a) * 40\<bar> \<le> 2040 * eps"
    using he sS unfolding y_def by (auto simp: abs_if split: if_splits)
  have hb: "1 / 2 \<le> h" "h \<le> 1001"
    using he sb eps unfolding y_def by (auto simp: abs_if split: if_splits)
  have e: "doubleHours k m = s"
    by (simp add: doubleHours_def s_def x_def d_def a_def kk_def)
  show "0 < doubleHours k m" using sb(1) unfolding e by simp
  show "doubleHours k m \<le> 25" using sb(2) by (simp add: e)
  show "\<bar>roundDouble (doubleHours k m * 40) - (of_int k + of_int m / 60) * 40\<bar> \<le> 2040 / 2 ^ 53"
    using hS by (simp add: e h_def y_def a_def kk_def eps_def)
  show "1 / 2 \<le> roundDouble (doubleHours k m * 40)" using hb(1) by (simp add: e h_def y_def)
  show "roundDouble (doubleHours k m * 40) \<le> 1001" using hb(2) by (simp add: e h_def y_def)
qed

subsection \<open>Evaluating a rounding\<close>

text \<open>A rounding is settled by the binade of its argument and the integer nearest to
  the argument in units of the quantum of that binade; a tie goes to the even one.\<close>

lemma roundHalfEven_nearest:
  assumes "\<bar>y - of_int n\<bar> < 1 / 2"
  shows "roundHalfEven y = n"
proof -
  have f: "of_int \<lfloor>y\<rfloor> \<le> y" "y < of_int \<lfloor>y\<rfloor> + 1" by linarith+
  have "\<lfloor>y\<rfloor> = n \<or> \<lfloor>y\<rfloor> = n - 1"
  proof -
    have "y < of_int (n + 1)" "of_int (n - 1) \<le> y"
      using assms by (auto simp: abs_if split: if_splits)
    then have "\<lfloor>y\<rfloor> < n + 1" "n - 1 \<le> \<lfloor>y\<rfloor>"
      by (simp_all only: floor_less_iff le_floor_iff)
    then show ?thesis by linarith
  qed
  then show ?thesis
    using assms f by (auto simp: roundHalfEven_def Let_def abs_if split: if_splits)
qed

lemma roundDouble_nearest:
  assumes "2 powi e \<le> \<bar>x\<bar>" "\<bar>x\<bar> < 2 powi (e + 1)" "- 1022 \<le> e"
    and "\<bar>x / 2 powi (e - 52) - of_int n\<bar> < 1 / 2"
  shows "roundDouble x = of_int n * 2 powi (e - 52)"
proof -
  have "(0::rat) < 2 powi e" by (rule zero_less_power_int) simp
  with assms(1) have "0 < \<bar>x\<bar>" by linarith
  then have nz: "x \<noteq> 0" by simp
  have i: "ilog2 \<bar>x\<bar> = e" using assms(1,2) by (rule ilog2_unique)
  have m: "max e (- 1022) = e" using assms(3) by simp
  show ?thesis
    using nz by (simp add: roundDouble_def Let_def i m roundHalfEven_nearest [OF assms(4)])
qed

lemma roundHalfEven_tie:
  assumes "y = of_int f + 1 / 2"
  shows "roundHalfEven y = (if even f then f else f + 1)"
proof -
  have "of_int f \<le> y" "y < of_int (f + 1)" using assms by simp_all
  then have "\<lfloor>y\<rfloor> = f" by (simp only: floor_unique)
  then show ?thesis using assms by (simp add: roundHalfEven_def Let_def)
qed

lemma roundDouble_tie:
  assumes "2 powi e \<le> \<bar>x\<bar>" "\<bar>x\<bar> < 2 powi (e + 1)" "- 1022 \<le> e"
    and "x / 2 powi (e - 52) = of_int f + 1 / 2"
  shows "roundDouble x = of_int (if even f then f else f + 1) * 2 powi (e - 52)"
proof -
  have "(0::rat) < 2 powi e" by (rule zero_less_power_int) simp
  with assms(1) have "0 < \<bar>x\<bar>" by linarith
  then have nz: "x \<noteq> 0" by simp
  have i: "ilog2 \<bar>x\<bar> = e" using assms(1,2) by (rule ilog2_unique)
  have m: "max e (- 1022) = e" using assms(3) by simp
  show ?thesis
    using nz by (simp only: roundDouble_def Let_def i m roundHalfEven_tie [OF assms(4)] if_False)
qed

lemma roundDouble_numeral:
  "(numeral w :: int) < 9007199254740992 \<Longrightarrow> roundDouble (numeral w) = numeral w"
  using roundDouble_int [of "numeral w"] by simp

text \<open>The roundings met in the examples below.\<close>

lemma rd_1_30: "roundDouble (1 / 30) = 4803839602528529 / 144115188075855872"
  using roundDouble_nearest [of "- 5" "1 / 30" "4803839602528529"]
  by (simp add: power_int_minus_divide)

lemma rd_1_30_again: "roundDouble (4803839602528529 / 144115188075855872) = 4803839602528529 / 144115188075855872"
  using roundDouble_nearest [of "- 5" "4803839602528529 / 144115188075855872" "4803839602528529"]
  by (simp add: power_int_minus_divide)

lemma rd_height_0001_0003: "roundDouble (24019198012642645 / 18014398509481984) = 6004799503160661 / 4503599627370496"
  using roundDouble_nearest [of "0" "24019198012642645 / 18014398509481984" "6004799503160661"]
  by (simp add: power_int_minus_divide)

lemma rd_1_20: "roundDouble (1 / 20) = 3602879701896397 / 72057594037927936"
  using roundDouble_nearest [of "- 5" "1 / 20" "7205759403792794"]
  by (simp add: power_int_minus_divide)

lemma rd_1_20_again: "roundDouble (3602879701896397 / 72057594037927936) = 3602879701896397 / 72057594037927936"
  using roundDouble_nearest [of "- 5" "3602879701896397 / 72057594037927936" "7205759403792794"]
  by (simp add: power_int_minus_divide)

lemma rd_1_60: "roundDouble (1 / 60) = 4803839602528529 / 288230376151711744"
  using roundDouble_nearest [of "- 6" "1 / 60" "4803839602528529"]
  by (simp add: power_int_minus_divide)

lemma rd_spec_diff: "roundDouble (9607679205057059 / 288230376151711744) = 2401919801264265 / 72057594037927936"
  using roundDouble_tie [of "- 5" "9607679205057059 / 288230376151711744" "4803839602528529"]
  by (simp add: power_int_minus_divide)

lemma rd_spec_0001_0003: "roundDouble (12009599006321325 / 9007199254740992) = 3002399751580331 / 2251799813685248"
  using roundDouble_tie [of "0" "12009599006321325 / 9007199254740992" "6004799503160662"]
  by (simp add: power_int_minus_divide)

lemma rd_m7_60: "roundDouble (- (7 / 60)) = - (4203359652212463 / 36028797018963968)"
  using roundDouble_nearest [of "- 4" "- (7 / 60)" "- 8406719304424926"]
  by (simp add: power_int_minus_divide)

lemma rd_24_m7_60: "roundDouble (860487768802922769 / 36028797018963968) = 3361280346886417 / 140737488355328"
  using roundDouble_nearest [of "4" "860487768802922769 / 36028797018963968" "6722560693772834"]
  by (simp add: power_int_minus_divide)

lemma rd_height_0007_2400: "roundDouble (16806401734432085 / 17592186044416) = 4201600433608021 / 4398046511104"
  using roundDouble_tie [of "9" "16806401734432085 / 17592186044416" "8403200867216042"]
  by (simp add: power_int_minus_divide)

lemma rd_1_60_again: "roundDouble (4803839602528529 / 288230376151711744) = 4803839602528529 / 288230376151711744"
  using roundDouble_nearest [of "- 6" "4803839602528529 / 288230376151711744" "4803839602528529"]
  by (simp add: power_int_minus_divide)

lemma rd_height_0000_0001: "roundDouble (24019198012642645 / 36028797018963968) = 6004799503160661 / 9007199254740992"
  using roundDouble_nearest [of "- 1" "24019198012642645 / 36028797018963968" "6004799503160661"]
  by (simp add: power_int_minus_divide)

lemma rd_sum_0007_0001: "roundDouble (8610882487532387669 / 9007199254740992) = 8409064929230847 / 8796093022208"
  using roundDouble_nearest [of "9" "8610882487532387669 / 9007199254740992" "8409064929230847"]
  by (simp add: power_int_minus_divide)

lemma rd_1_2: "roundDouble (1 / 2) = 1 / 2"
  using roundDouble_nearest [of "- 1" "1 / 2" "4503599627370496"]
  by (simp add: power_int_minus_divide)

lemma rd_17_2: "roundDouble (17 / 2) = 17 / 2"
  using roundDouble_nearest [of "3" "17 / 2" "4785074604081152"]
  by (simp add: power_int_minus_divide)

section \<open>Properties of the timeline layout\<close>

subsection \<open>Splitting\<close>

lemma jsSplit_nonempty: "jsSplit c s \<noteq> []"
  by (induction s) (auto split: list.splits)

lemma jsSplit_length: "length (jsSplit c s) = Suc (length (filter (\<lambda>x. x = c) s))"
  by (induction s) (auto split: list.splits)

lemma jsSplit_append_sep: "c \<notin> set a \<Longrightarrow> jsSplit c (a @ c # b) = a # jsSplit c b"
  by (induction a) auto

lemma jsSplit_hd_no_sep: "jsSplit c s = p # ps \<Longrightarrow> c \<notin> set p"
proof (induction s arbitrary: p ps)
  case Nil
  then show ?case by simp
next
  case (Cons x xs)
  show ?case
  proof (cases "x = c")
    case True
    with Cons.prems show ?thesis by simp
  next
    case False
    obtain q qs where q: "jsSplit c xs = q # qs"
      using jsSplit_nonempty [of c xs] by (cases "jsSplit c xs") auto
    with False Cons.prems have "p = x # q" by simp
    moreover have "c \<notin> set q" using Cons.IH [OF q] .
    ultimately show ?thesis using False by auto
  qed
qed

subsection \<open>Parsing the wire format\<close>

lemma parseInt_literals:
  "parseInt ''09'' = Fin 9" "parseInt ''00'' = Fin 0" "parseInt ''0'' = Fin 0"
  "parseInt ''24'' = Fin 24" "parseInt ''foo'' = NaN" "parseInt ''bar'' = NaN"
  by (simp_all add: parseInt_def stripSign_def stripPrefix_def isWs_def isRadixDigit_def
      radixDigit_def digitVal_def digitsValue_def toNumber_small roundDouble_zero
      roundDouble_numeral)

lemma of_char_digitChar: "d < 10 \<Longrightarrow> (of_char (digitChar d) :: nat) = 48 + d"
  by (simp add: digitChar_def)

lemma digitChar_facts:
  assumes "d < 10"
  shows "\<not> isWs (digitChar d)" "digitChar d \<noteq> CHR '':''" "digitChar d \<noteq> CHR ''-''"
    "digitChar d \<noteq> CHR ''+''" "digitChar d \<noteq> CHR ''x''" "digitChar d \<noteq> CHR ''X''"
    "radixDigit 10 (digitChar d) = Some d" "isRadixDigit 10 (digitChar d)"
proof -
  have n: "(of_char (digitChar d) :: nat) = 48 + d"
    using assms by (rule of_char_digitChar)
  have ne: "\<And>c. (of_char c :: nat) \<noteq> 48 + d \<Longrightarrow> digitChar d \<noteq> c"
    using n by auto
  show "\<not> isWs (digitChar d)" using assms by (simp add: isWs_def n)
  show "digitChar d \<noteq> CHR '':''" using assms by (intro ne) simp
  show "digitChar d \<noteq> CHR ''-''" using assms by (intro ne) simp
  show "digitChar d \<noteq> CHR ''+''" using assms by (intro ne) simp
  show "digitChar d \<noteq> CHR ''x''" using assms by (intro ne) simp
  show "digitChar d \<noteq> CHR ''X''" using assms by (intro ne) simp
  show r: "radixDigit 10 (digitChar d) = Some d"
    using assms by (simp add: radixDigit_def digitVal_def n)
  show "isRadixDigit 10 (digitChar d)" by (simp add: isRadixDigit_def r)
qed

lemma parseInt_fmt2: "n < 100 \<Longrightarrow> parseInt (fmt2 n) = Fin (of_nat n)"
proof -
  assume n: "n < 100"
  have a: "n div 10 < 10" and b: "n mod 10 < 10" using n by auto
  have "int n = int (n div 10 * 10 + n mod 10)" by simp
  also have "\<dots> = int (n div 10) * 10 + int (n mod 10)"
    by (simp only: of_nat_add of_nat_mult of_nat_numeral)
  finally have v: "int (n div 10) * 10 + int (n mod 10) = int n" by simp
  have "parseInt (fmt2 n) = toNumber (of_int (int (n div 10) * 10 + int (n mod 10)))"
    by (simp add: parseInt_def fmt2_def stripSign_def stripPrefix_def digitsValue_def
        digitChar_facts [OF a] digitChar_facts [OF b])
  also have "\<dots> = toNumber (of_int (int n))" by (simp only: v)
  also have "\<dots> = Fin (of_int (int n))" using n by (intro toNumber_int) simp
  finally show ?thesis by simp
qed

lemma parseTimeString_clockStr:
  assumes "h < 100" "m < 100"
  shows "parseTimeString (clockStr h m) = \<lparr> hour = Fin (of_nat h), minute = Fin (of_nat m) \<rparr>"
proof -
  have a: "h div 10 < 10" and b: "h mod 10 < 10" and c: "m div 10 < 10" and d: "m mod 10 < 10"
    using assms by auto
  have t: "trim (clockStr h m) = clockStr h m"
    by (simp add: trim_def clockStr_def fmt2_def digitChar_facts [OF a] digitChar_facts [OF d])
  have s: "jsSplit (CHR '':'') (clockStr h m) = [fmt2 h, fmt2 m]"
    by (simp add: clockStr_def fmt2_def digitChar_facts [OF a] digitChar_facts [OF b]
        digitChar_facts [OF c] digitChar_facts [OF d])
  have ne: "fmt2 m \<noteq> []" by (simp add: fmt2_def)
  show ?thesis
    by (simp add: parseTimeString_def t s ne parseInt_fmt2 assms)
qed

lemma jsSplit_timeRangeStr:
  assumes "sh < 100" "sm < 100" "eh < 100" "em < 100"
  shows "jsSplit (CHR ''-'') (timeRangeStr sh sm eh em) = [clockStr sh sm, clockStr eh em]"
proof -
  have a: "sh div 10 < 10" "sh mod 10 < 10" "sm div 10 < 10" "sm mod 10 < 10"
    "eh div 10 < 10" "eh mod 10 < 10" "em div 10 < 10" "em mod 10 < 10"
    using assms by auto
  show ?thesis
    by (simp add: timeRangeStr_def clockStr_def fmt2_def a [THEN digitChar_facts(3)])
qed

lemma timeRangeStr_nonempty: "timeRangeStr sh sm eh em \<noteq> []"
  by (simp add: timeRangeStr_def clockStr_def fmt2_def)

lemma clockStr_literals: "clockStr 24 0 = ''24:00''" "clockStr 0 0 = ''00:00''"
  by code_simp+

lemma timeRangeStr_literals:
  "timeRangeStr 9 0 9 0 = ''09:00-09:00''" "timeRangeStr 9 0 17 30 = ''09:00-17:30''"
  "timeRangeStr 22 0 0 0 = ''22:00-00:00''" "timeRangeStr 22 0 24 0 = ''22:00-24:00''"
  "timeRangeStr 0 0 0 0 = ''00:00-00:00''" "timeRangeStr 22 0 2 0 = ''22:00-02:00''"
  "timeRangeStr 0 1 0 3 = ''00:01-00:03''" "timeRangeStr 0 7 0 1 = ''00:07-00:01''"
  by code_simp+

subsection \<open>The layout functions on the wire format\<close>

lemma isOvernight_timeRangeStr:
  assumes "sh < 100" "sm < 100" "eh < 100" "em < 100"
  shows "isOvernightEvent (timeRangeStr sh sm eh em) = (eh < sh \<or> (eh = sh \<and> em < sm))"
  by (simp add: isOvernightEvent_def timeRangeStr_nonempty jsSplit_timeRangeStr assms
      parseTimeString_clockStr)

text \<open>The position of a range in the wire format, with the arithmetic still to do.\<close>

lemma position_timeRangeStr:
  assumes "sh < 100" "sm < 100" "eh < 100" "em < 100"
  shows "calculateEventPosition (timeRangeStr sh sm eh em) =
    Some \<lparr> top_px =
             jsAdd (jsMul (jsAdd (Fin (of_nat sh)) (jsDiv (Fin (of_nat sm)) (Fin 60))) (Fin 40))
                   (Fin 30),
           height =
             jsMul (if jsLe (jsAdd (jsSub (Fin (of_nat eh)) (Fin (of_nat sh)))
                                   (jsDiv (jsSub (Fin (of_nat em)) (Fin (of_nat sm))) (Fin 60)))
                            (Fin 0)
                    then jsAdd (jsSub (jsSub (Fin 24) (Fin (of_nat sh)))
                                      (jsDiv (Fin (of_nat sm)) (Fin 60)))
                               (jsAdd (Fin (of_nat eh)) (jsDiv (Fin (of_nat em)) (Fin 60)))
                    else jsAdd (jsSub (Fin (of_nat eh)) (Fin (of_nat sh)))
                               (jsDiv (jsSub (Fin (of_nat em)) (Fin (of_nat sm))) (Fin 60)))
                   (Fin 40) \<rparr>"
  by (simp add: calculateEventPosition_def timeRangeStr_nonempty jsSplit_timeRangeStr assms
      parseTimeString_clockStr Let_def
      del: jsAdd.simps jsSub.simps jsMul.simps jsDiv.simps)

lemma jsSub_nat:
  assumes "a < 100" "b < 100"
  shows "jsSub (Fin (of_nat a)) (Fin (of_nat b)) = Fin (of_int (int a - int b))"
proof -
  have "\<bar>int a - int b\<bar> \<le> 2 ^ 20" using assms by simp
  from toNumber_int [OF this] show ?thesis by simp
qed

lemma duration_timeRangeStr:
  assumes "sh < 100" "sm < 100" "eh < 100" "em < 100"
  shows "jsAdd (jsSub (Fin (of_nat eh)) (Fin (of_nat sh)))
               (jsDiv (jsSub (Fin (of_nat em)) (Fin (of_nat sm))) (Fin 60)) =
    Fin (doubleHours (int eh - int sh) (int em - int sm))"
proof -
  have "\<bar>int eh - int sh\<bar> \<le> 1000" "\<bar>int em - int sm\<bar> \<le> 1000" using assms by simp_all
  from jsHours [OF this] show ?thesis
    by (simp only: jsSub_nat assms)
qed

text \<open>A range whose end is later than its start, by hours in 0..24 and minutes in
  0..59: the height is the rounded product of the rounded duration.\<close>

lemma later_end_height:
  assumes "sh \<le> 24" "sm \<le> 59" "eh \<le> 24" "em \<le> 59"
    and "sh < eh \<or> (sh = eh \<and> sm < em)"
  shows "map_option height (calculateEventPosition (timeRangeStr sh sm eh em)) =
      Some (Fin (roundDouble (doubleHours (int eh - int sh) (int em - int sm) * 40)))"
    and "0 \<le> int eh - int sh" "int eh - int sh \<le> 24" "\<bar>int em - int sm\<bar> \<le> 59"
      "1 \<le> 60 * (int eh - int sh) + (int em - int sm)"
proof -
  have b: "sh < 100" "sm < 100" "eh < 100" "em < 100" using assms by auto
  show c: "0 \<le> int eh - int sh" "int eh - int sh \<le> 24" "\<bar>int em - int sm\<bar> \<le> 59"
    "1 \<le> 60 * (int eh - int sh) + (int em - int sm)"
    using assms by auto
  note h = doubleHours_height [OF c]
  have le: "\<not> jsLe (Fin (doubleHours (int eh - int sh) (int em - int sm))) (Fin 0)"
    using h(1) by (simp add: jsLe_def)
  have "\<bar>doubleHours (int eh - int sh) (int em - int sm) * 40\<bar> \<le> 2 ^ 20"
    using h(1,2) by (auto simp: abs_if split: if_splits)
  from toNumber_small [OF this]
  have mul: "jsMul (Fin (doubleHours (int eh - int sh) (int em - int sm))) (Fin 40) =
      Fin (roundDouble (doubleHours (int eh - int sh) (int em - int sm) * 40))"
    by simp
  show "map_option height (calculateEventPosition (timeRangeStr sh sm eh em)) =
      Some (Fin (roundDouble (doubleHours (int eh - int sh) (int em - int sm) * 40)))"
    by (simp only: position_timeRangeStr [OF b] duration_timeRangeStr [OF b] le if_False
        option.map position.simps mul)
qed

lemma current_timeRangeStr:
  assumes "sh < 100" "sm < 100" "eh < 100" "em < 100" "eh < sh \<or> (eh = sh \<and> em < sm)"
  shows "getCurrentDayTimeRange (timeRangeStr sh sm eh em) = timeRangeStr sh sm 24 0"
  using assms(5)
  by (simp add: getCurrentDayTimeRange_def isOvernight_timeRangeStr assms(1-4)
      jsSplit_timeRangeStr) (simp add: timeRangeStr_def clockStr_literals)

lemma next_timeRangeStr:
  assumes "sh < 100" "sm < 100" "eh < 100" "em < 100" "eh < sh \<or> (eh = sh \<and> em < sm)"
  shows "getNextDayTimeRange (timeRangeStr sh sm eh em) = Some (timeRangeStr 0 0 eh em)"
  using assms(5)
  by (simp add: getNextDayTimeRange_def isOvernight_timeRangeStr assms(1-4)
      jsSplit_timeRangeStr) (simp add: timeRangeStr_def clockStr_literals)

text \<open>The two heights of an overnight range that does not end at 00:00, and their
  sum.\<close>

lemma splitHeightSum_timeRangeStr:
  assumes "sh \<le> 23" "sm \<le> 59" "eh \<le> 23" "em \<le> 59"
    and "eh < sh \<or> (eh = sh \<and> em < sm)" and "\<not> (eh = 0 \<and> em = 0)"
  shows "splitHeightSum (timeRangeStr sh sm eh em) =
    Some (Fin (roundDouble
      (roundDouble (doubleHours (int 24 - int sh) (int 0 - int sm) * 40) +
       roundDouble (doubleHours (int eh - int 0) (int em - int 0) * 40))))"
proof -
  define h1 where "h1 = roundDouble (doubleHours (int 24 - int sh) (int 0 - int sm) * 40)"
  define h2 where "h2 = roundDouble (doubleHours (int eh - int 0) (int em - int 0) * 40)"
  have b: "sh < 100" "sm < 100" "eh < 100" "em < 100" using assms by auto
  have c: "getCurrentDayTimeRange (timeRangeStr sh sm eh em) = timeRangeStr sh sm 24 0"
    by (rule current_timeRangeStr [OF b assms(5)])
  have n: "getNextDayTimeRange (timeRangeStr sh sm eh em) = Some (timeRangeStr 0 0 eh em)"
    by (rule next_timeRangeStr [OF b assms(5)])
  have s1: "sh < 24 \<or> (sh = 24 \<and> sm < 0)" using assms(1) by simp
  have a: "sh \<le> 24" "(24::nat) \<le> 24" "(0::nat) \<le> 59" "(0::nat) \<le> 24"
    "eh \<le> 24" using assms by simp_all
  note l1 = later_end_height [OF a(1) assms(2) a(2) a(3) s1]
  have s2: "0 < eh \<or> (0 = eh \<and> 0 < em)" using assms(6) by auto
  note l2 = later_end_height [OF a(4) a(3) a(5) assms(4) s2]
  note d1 = doubleHours_height(4,5) [OF l1(2-5)]
  note d2 = doubleHours_height(4,5) [OF l2(2-5)]
  have "\<bar>h1 + h2\<bar> \<le> 2 ^ 20"
    using d1 d2 unfolding h1_def [symmetric] h2_def [symmetric]
    by (auto simp: abs_if split: if_splits)
  from toNumber_small [OF this] have add: "jsAdd (Fin h1) (Fin h2) = Fin (roundDouble (h1 + h2))"
    by simp
  have p1: "map_option height (calculateEventPosition (timeRangeStr sh sm 24 0)) = Some (Fin h1)"
    using l1(1) by (simp only: h1_def)
  have p2: "map_option height (calculateEventPosition (timeRangeStr 0 0 eh em)) = Some (Fin h2)"
    using l2(1) by (simp only: h2_def)
  from p1 obtain q1 where q1: "calculateEventPosition (timeRangeStr sh sm 24 0) = Some q1"
    "height q1 = Fin h1"
    by (cases "calculateEventPosition (timeRangeStr sh sm 24 0)") auto
  from p2 obtain q2 where q2: "calculateEventPosition (timeRangeStr 0 0 eh em) = Some q2"
    "height q2 = Fin h2"
    by (cases "calculateEventPosition (timeRangeStr 0 0 eh em)") auto
  have "splitHeightSum (timeRangeStr sh sm eh em) = Some (Fin (roundDouble (h1 + h2)))"
    by (simp add: splitHeightSum_def c n q1 q2 add del: jsAdd.simps)
  then show ?thesis by (simp only: h1_def h2_def)
qed

subsection \<open>Worked examples\<close>

lemmas js_arith = toNumber_small roundDouble_zero roundDouble_numeral jsLe_def

lemma position_0900_0900:
  "calculateEventPosition ''09:00-09:00'' = Some \<lparr> top_px = Fin 390, height = Fin 960 \<rparr>"
  using position_timeRangeStr [of 9 0 9 0] by (simp add: timeRangeStr_literals js_arith)

lemma position_0000_0000:
  "calculateEventPosition ''00:00-00:00'' = Some \<lparr> top_px = Fin 30, height = Fin 960 \<rparr>"
  using position_timeRangeStr [of 0 0 0 0] by (simp add: timeRangeStr_literals js_arith)

lemma position_2200_2400:
  "calculateEventPosition ''22:00-24:00'' = Some \<lparr> top_px = Fin 910, height = Fin 80 \<rparr>"
  using position_timeRangeStr [of 22 0 24 0] by (simp add: timeRangeStr_literals js_arith)

lemma height_0900_1730:
  "map_option height (calculateEventPosition ''09:00-17:30'') = Some (Fin 340)"
  using later_end_height(1) [of 9 0 17 30]
  by (simp add: timeRangeStr_literals doubleHours_def rd_1_2 rd_17_2 roundDouble_numeral)

lemma height_0001_0003:
  "map_option height (calculateEventPosition ''00:01-00:03'') =
     Some (Fin (6004799503160661 / 4503599627370496))"
  using later_end_height(1) [of 0 1 0 3] unfolding timeRangeStr_literals
  by (simp add: doubleHours_def rd_1_30 rd_1_30_again
      rd_height_0001_0003)

lemma specHeight_0900_0900: "specHeight 9 0 9 0 = Fin 0"
  by (simp add: specHeight_def js_arith)

lemma specHeight_0001_0003:
  "specHeight 0 1 0 3 = Fin (3002399751580331 / 2251799813685248)"
  by (simp add: specHeight_def js_arith rd_1_20 rd_1_20_again rd_1_60 rd_spec_diff
      rd_spec_0001_0003)

lemma splitHeightSum_2200_0200: "splitHeightSum ''22:00-02:00'' = Some (Fin 160)"
  using splitHeightSum_timeRangeStr [of 22 0 2 0]
  by (simp add: timeRangeStr_literals doubleHours_def roundDouble_zero roundDouble_numeral)

lemma overnight_2200_0000:
  "isOvernightEvent ''22:00-00:00''"
  "getCurrentDayTimeRange ''22:00-00:00'' = ''22:00-24:00''"
  "getNextDayTimeRange ''22:00-00:00'' = Some ''00:00-00:00''"
  using isOvernight_timeRangeStr [of 22 0 0 0] current_timeRangeStr [of 22 0 0 0]
    next_timeRangeStr [of 22 0 0 0]
  by (simp_all add: timeRangeStr_literals)

lemma splitHeightSum_2200_0000: "splitHeightSum ''22:00-00:00'' = Some (Fin 1040)"
  by (simp add: splitHeightSum_def overnight_2200_0000 position_2200_2400 position_0000_0000
      js_arith)

lemma splitHeightSum_0007_0001:
  "splitHeightSum ''00:07-00:01'' = Some (Fin (8409064929230847 / 8796093022208))"
  using splitHeightSum_timeRangeStr [of 0 7 0 1] unfolding timeRangeStr_literals
  by (simp add: doubleHours_def roundDouble_zero roundDouble_numeral
      rd_m7_60 rd_24_m7_60 rd_height_0007_2400 rd_1_60 rd_1_60_again rd_height_0000_0001
      rd_sum_0007_0001)

subsection \<open>Ranges that do not end before they start\<close>

text \<open>
  C3, as amended. For every range \<^verbatim>\<open>HH:MM-HH:MM\<close> with hours in 0..23 and minutes in
  0..59 whose end is not earlier than its start, \<^verbatim>\<open>isOvernightEvent\<close> is false and
  \<^verbatim>\<open>calculateEventPosition\<close> returns a position. When the end is strictly later than
  the start, the height of that position is
  \<open>(endHour + endMinute/60 - startHour - startMinute/60) * 40\<close> up to the rounding of
  double arithmetic: it differs from the exact value by at most \<open>2\<^sup>-\<^sup>4\<^sup>2\<close>.
\<close>

theorem C3_later_end_height:
  assumes "sh \<le> 23" "sm \<le> 59" "eh \<le> 23" "em \<le> 59"
    and "sh < eh \<or> (sh = eh \<and> sm \<le> em)"
  shows "\<not> isOvernightEvent (timeRangeStr sh sm eh em) \<and>
    calculateEventPosition (timeRangeStr sh sm eh em) \<noteq> None \<and>
    (\<not> (sh = eh \<and> sm = em) \<longrightarrow>
       closeTo (1 / 2 ^ 42)
         (map_option height (calculateEventPosition (timeRangeStr sh sm eh em)))
         ((of_nat eh + of_nat em / 60 - of_nat sh - of_nat sm / 60) * 40))"
proof -
  have b: "sh < 100" "sm < 100" "eh < 100" "em < 100" using assms by auto
  have o: "\<not> isOvernightEvent (timeRangeStr sh sm eh em)"
    using assms(5) by (auto simp: isOvernight_timeRangeStr [OF b])
  have n: "calculateEventPosition (timeRangeStr sh sm eh em) \<noteq> None"
    by (simp only: position_timeRangeStr [OF b]) simp
  have c: "closeTo (1 / 2 ^ 42)
         (map_option height (calculateEventPosition (timeRangeStr sh sm eh em)))
         ((of_nat eh + of_nat em / 60 - of_nat sh - of_nat sm / 60) * 40)"
    if ne: "\<not> (sh = eh \<and> sm = em)"
  proof -
    from assms(5) ne have strict: "sh < eh \<or> (sh = eh \<and> sm < em)" by auto
    have a: "sh \<le> 24" "eh \<le> 24" using assms by simp_all
    note l = later_end_height [OF a(1) assms(2) a(2) assms(4) strict]
    note h = doubleHours_height(3) [OF l(2-5)]
    have e: "(of_int (int eh - int sh) + of_int (int em - int sm) / 60 :: rat) * 40 =
        (of_nat eh + of_nat em / 60 - of_nat sh - of_nat sm / 60) * 40"
      by (simp add: field_simps)
    have "(2040::rat) / 2 ^ 53 \<le> 1 / 2 ^ 42" by simp
    with h have "\<bar>roundDouble (doubleHours (int eh - int sh) (int em - int sm) * 40) -
        (of_nat eh + of_nat em / 60 - of_nat sh - of_nat sm / 60) * 40\<bar> \<le> 1 / 2 ^ 42"
      unfolding e by (rule order_trans)
    then show ?thesis by (simp only: l(1) closeTo_def option.case jsnum.case)
  qed
  from o n c show ?thesis by blast
qed

text \<open>The range 09:00-17:30: eight and a half hours, 340 pixels.\<close>

theorem C3_later_end_height_witness:
  "\<not> isOvernightEvent ''09:00-17:30'' \<and>
   calculateEventPosition ''09:00-17:30'' \<noteq> None \<and>
   closeTo (1 / 2 ^ 42) (map_option height (calculateEventPosition ''09:00-17:30'')) 340 \<and>
   map_option height (calculateEventPosition ''09:00-17:30'') = Some (Fin 340)"
  using C3_later_end_height [of 9 0 17 30]
  by (simp add: timeRangeStr_literals height_0900_1730)

text \<open>The claim as stated includes the ranges whose end equals their start, and it
  states an equality. For 09:00-09:00 the height is that of 24 hours, 960, where the
  expression of the claim is 0. For 00:01-00:03 the height is the double
  1.3333333333333333, the expression of the claim evaluates in doubles to
  1.3333333333333335, and its exact value 4/3 is no double at all.\<close>

theorem C3_equal_ends_counterexample:
  "\<not> (\<not> isOvernightEvent ''09:00-09:00'' \<and>
       map_option height (calculateEventPosition ''09:00-09:00'') =
         Some (Fin ((9 + 0 / 60 - 9 - 0 / 60) * 40))) \<and>
   map_option height (calculateEventPosition ''09:00-09:00'') = Some (Fin 960) \<and>
   specHeight 9 0 9 0 = Fin 0 \<and>
   map_option height (calculateEventPosition ''00:01-00:03'') =
     Some (Fin (6004799503160661 / 4503599627370496)) \<and>
   specHeight 0 1 0 3 = Fin (3002399751580331 / 2251799813685248) \<and>
   map_option height (calculateEventPosition ''00:01-00:03'') \<noteq> Some (specHeight 0 1 0 3) \<and>
   map_option height (calculateEventPosition ''00:01-00:03'') \<noteq>
     Some (Fin ((0 + 3 / 60 - 0 - 1 / 60) * 40))"
  unfolding position_0900_0900 height_0001_0003 specHeight_0900_0900 specHeight_0001_0003
  by simp

subsection \<open>Overnight ranges\<close>

text \<open>
  C4, as amended. For every valid range whose end is strictly earlier than its start,
  \<^verbatim>\<open>isOvernightEvent\<close> is true, \<^verbatim>\<open>getCurrentDayTimeRange\<close> returns the start token
  followed by \<^verbatim>\<open>-24:00\<close> and \<^verbatim>\<open>getNextDayTimeRange\<close> returns \<^verbatim>\<open>00:00-\<close> followed by the
  end token; and when the end is not 00:00, the heights that \<^verbatim>\<open>calculateEventPosition\<close>
  computes for the two split ranges add up to \<open>((24 - start) + end) * 40\<close>, start and
  end in hours, up to the rounding of double arithmetic: the sum, itself a double,
  differs from the exact value by at most \<open>2\<^sup>-\<^sup>4\<^sup>0\<close>.
\<close>

theorem C4_overnight_split_heights:
  assumes "sh \<le> 23" "sm \<le> 59" "eh \<le> 23" "em \<le> 59"
    and "eh < sh \<or> (eh = sh \<and> em < sm)"
  shows "isOvernightEvent (timeRangeStr sh sm eh em) \<and>
    getCurrentDayTimeRange (timeRangeStr sh sm eh em) = clockStr sh sm @ ''-24:00'' \<and>
    getNextDayTimeRange (timeRangeStr sh sm eh em) = Some (''00:00-'' @ clockStr eh em) \<and>
    (\<not> (eh = 0 \<and> em = 0) \<longrightarrow>
       closeTo (1 / 2 ^ 40) (splitHeightSum (timeRangeStr sh sm eh em))
         (((24 - (of_nat sh + of_nat sm / 60)) + (of_nat eh + of_nat em / 60)) * 40))"
proof -
  have b: "sh < 100" "sm < 100" "eh < 100" "em < 100" using assms by auto
  have o: "isOvernightEvent (timeRangeStr sh sm eh em)"
    using assms(5) by (simp add: isOvernight_timeRangeStr [OF b])
  have c: "getCurrentDayTimeRange (timeRangeStr sh sm eh em) = timeRangeStr sh sm 24 0"
    by (rule current_timeRangeStr [OF b assms(5)])
  have n: "getNextDayTimeRange (timeRangeStr sh sm eh em) = Some (timeRangeStr 0 0 eh em)"
    by (rule next_timeRangeStr [OF b assms(5)])
  have c': "timeRangeStr sh sm 24 0 = clockStr sh sm @ ''-24:00''"
    by (simp add: timeRangeStr_def clockStr_literals)
  have n': "timeRangeStr 0 0 eh em = ''00:00-'' @ clockStr eh em"
    by (simp add: timeRangeStr_def clockStr_literals)
  have h: "closeTo (1 / 2 ^ 40) (splitHeightSum (timeRangeStr sh sm eh em))
         (((24 - (of_nat sh + of_nat sm / 60)) + (of_nat eh + of_nat em / 60)) * 40)"
    if nz: "\<not> (eh = 0 \<and> em = 0)"
  proof -
    define eps :: rat where "eps = 1 / 2 ^ 53"
    define h1 where "h1 = roundDouble (doubleHours (int 24 - int sh) (int 0 - int sm) * 40)"
    define h2 where "h2 = roundDouble (doubleHours (int eh - int 0) (int em - int 0) * 40)"
    define E1 :: rat where "E1 = (of_int (int 24 - int sh) + of_int (int 0 - int sm) / 60) * 40"
    define E2 :: rat where "E2 = (of_int (int eh - int 0) + of_int (int em - int 0) / 60) * 40"
    have eps: "0 < eps" "eps \<le> 1 / 1000000" by (simp_all add: eps_def)
    have s1: "sh < 24 \<or> (sh = 24 \<and> sm < 0)" using assms(1) by simp
    have a: "sh \<le> 24" "(24::nat) \<le> 24" "(0::nat) \<le> 59" "(0::nat) \<le> 24"
      "eh \<le> 24" using assms by simp_all
    note l1 = later_end_height(2-5) [OF a(1) assms(2) a(2) a(3) s1]
    have s2: "0 < eh \<or> (0 = eh \<and> 0 < em)" using nz by auto
    note l2 = later_end_height(2-5) [OF a(4) a(3) a(5) assms(4) s2]
    note d1 = doubleHours_height(3-5) [OF l1]
    note d2 = doubleHours_height(3-5) [OF l2]
    have e1: "\<bar>h1 - E1\<bar> \<le> 2040 * eps" "1 / 2 \<le> h1" "h1 \<le> 1001"
      using d1 by (simp_all add: h1_def E1_def eps_def)
    have e2: "\<bar>h2 - E2\<bar> \<le> 2040 * eps" "1 / 2 \<le> h2" "h2 \<le> 1001"
      using d2 by (simp_all add: h2_def E2_def eps_def)
    have sb: "1 / 1024 \<le> \<bar>h1 + h2\<bar>" "\<bar>h1 + h2\<bar> \<le> 2002"
      using e1(2,3) e2(2,3) by (auto simp: abs_if split: if_splits)
    have re: "\<bar>roundDouble (h1 + h2) - (h1 + h2)\<bar> \<le> 2002 * eps"
      using roundDouble_error_le [OF sb] by (simp add: eps_def)
    have "\<bar>roundDouble (h1 + h2) - (E1 + E2)\<bar> \<le> 8192 * eps"
      using re e1(1) e2(1) eps by (auto simp: abs_if split: if_splits)
    moreover have "8192 * eps = 1 / 2 ^ 40" by (simp add: eps_def)
    moreover have "E1 + E2 =
        ((24 - (of_nat sh + of_nat sm / 60)) + (of_nat eh + of_nat em / 60)) * 40"
      by (simp add: E1_def E2_def field_simps)
    ultimately have close: "\<bar>roundDouble (h1 + h2) -
        ((24 - (of_nat sh + of_nat sm / 60)) + (of_nat eh + of_nat em / 60)) * 40\<bar> \<le> 1 / 2 ^ 40"
      by simp
    have "splitHeightSum (timeRangeStr sh sm eh em) = Some (Fin (roundDouble (h1 + h2)))"
      using splitHeightSum_timeRangeStr [OF assms nz] by (simp only: h1_def h2_def)
    with close show ?thesis by (simp add: closeTo_def)
  qed
  show ?thesis using o c n h c' n' by simp
qed

text \<open>The range 22:00-02:00: two blocks of 80 pixels each.\<close>

theorem C4_overnight_split_heights_witness:
  "isOvernightEvent ''22:00-02:00'' \<and>
   getCurrentDayTimeRange ''22:00-02:00'' = ''22:00-24:00'' \<and>
   getNextDayTimeRange ''22:00-02:00'' = Some ''00:00-02:00'' \<and>
   closeTo (1 / 2 ^ 40) (splitHeightSum ''22:00-02:00'') 160 \<and>
   splitHeightSum ''22:00-02:00'' = Some (Fin 160)"
proof -
  have s: "clockStr 22 0 = ''22:00''" "clockStr 2 0 = ''02:00''"
    by code_simp+
  from C4_overnight_split_heights [of 22 0 2 0] show ?thesis
    by (simp add: timeRangeStr_literals s splitHeightSum_2200_0200)
qed

text \<open>The claim as stated includes the overnight ranges that end at 00:00, and it states
  an equality. For 22:00-00:00 the split ranges are 22:00-24:00 and 00:00-00:00, as the
  claim says. The first block is 80 pixels high; the second range has
  \<open>durationHours = 0\<close>, takes the wrap-around branch of \<^verbatim>\<open>calculateEventPosition\<close> and
  is 960 pixels high. The sum is 1040, where the wrap-around duration
  \<open>((24 - 22) + 0) * 40\<close> is 80. For 00:07-00:01 the two heights add up to the double
  955.9999999999999, where the wrap-around duration gives 956.\<close>

theorem C4_midnight_end_counterexample:
  "isOvernightEvent ''22:00-00:00'' \<and>
   getCurrentDayTimeRange ''22:00-00:00'' = ''22:00-24:00'' \<and>
   getNextDayTimeRange ''22:00-00:00'' = Some ''00:00-00:00'' \<and>
   map_option height (calculateEventPosition ''22:00-24:00'') = Some (Fin 80) \<and>
   map_option height (calculateEventPosition ''00:00-00:00'') = Some (Fin 960) \<and>
   splitHeightSum ''22:00-00:00'' = Some (Fin 1040) \<and>
   splitHeightSum ''22:00-00:00'' \<noteq> Some (Fin (((24 - (22 + 0 / 60)) + (0 + 0 / 60)) * 40)) \<and>
   splitHeightSum ''00:07-00:01'' = Some (Fin (8409064929230847 / 8796093022208)) \<and>
   splitHeightSum ''00:07-00:01'' \<noteq> Some (Fin (((24 - (0 + 7 / 60)) + (0 + 1 / 60)) * 40))"
  unfolding splitHeightSum_2200_0000 splitHeightSum_0007_0001 position_2200_2400
    position_0000_0000
  by (simp add: overnight_2200_0000)

subsection \<open>The zero-length range\<close>

text \<open>
  C9. \<^verbatim>\<open>calculateEventPosition("09:00-09:00")\<close> is exactly \<open>{top: 390, height: 960}\<close>:
  the zero-length range has \<open>durationHours = 0 \<le> 0\<close> and is re-read by the wrap-around
  formula as \<open>(24 - 9) + 9 = 24\<close> hours.
\<close>

theorem C9_zero_length_position:
  "calculateEventPosition ''09:00-09:00'' = Some \<lparr> top_px = Fin 390, height = Fin 960 \<rparr>"
  by (rule position_0900_0900)

subsection \<open>Idempotence of the start-day range\<close>

lemma overnight_parts:
  assumes "isOvernightEvent t"
  obtains p0 p1 where "jsSplit (CHR ''-'') t = [p0, p1]"
  using assms
  by (auto simp: isOvernightEvent_def split: if_splits list.splits)

lemma current_shape:
  assumes "isOvernightEvent t"
  shows "\<exists>p0. CHR ''-'' \<notin> set p0 \<and> getCurrentDayTimeRange t = p0 @ ''-24:00''"
proof -
  from assms obtain p0 p1 where s: "jsSplit (CHR ''-'') t = [p0, p1]"
    by (rule overnight_parts)
  have "CHR ''-'' \<notin> set p0" using jsSplit_hd_no_sep [OF s] .
  moreover have "getCurrentDayTimeRange t = p0 @ ''-24:00''"
    using assms by (simp add: getCurrentDayTimeRange_def s)
  ultimately show ?thesis by blast
qed

lemma current_fixed:
  assumes "CHR ''-'' \<notin> set p0"
  shows "getCurrentDayTimeRange (p0 @ ''-24:00'') = p0 @ ''-24:00''"
proof -
  have "jsSplit (CHR ''-'') (p0 @ ''-24:00'') = [p0, ''24:00'']"
    using jsSplit_append_sep [OF assms, of "''24:00''"] by simp
  then show ?thesis by (simp add: getCurrentDayTimeRange_def)
qed

lemma parse_2400: "parseTimeString ''24:00'' = \<lparr> hour = Fin 24, minute = Fin 0 \<rparr>"
  using parseTimeString_clockStr [of 24 0] by (simp add: clockStr_literals)

lemma not_overnight_2400:
  assumes "hour (parseTimeString p0) = Fin h" "h \<le> 23"
  shows "\<not> isOvernightEvent (p0 @ ''-24:00'')"
proof (cases "CHR ''-'' \<in> set p0")
  case False
  have "jsSplit (CHR ''-'') (p0 @ ''-24:00'') = [p0, ''24:00'']"
    using jsSplit_append_sep [of "CHR ''-''" p0 "''24:00''"] False by simp
  then show ?thesis using assms by (simp add: isOvernightEvent_def parse_2400)
next
  case True
  then have "0 < length (filter (\<lambda>x. x = CHR ''-'') p0)"
    by (simp add: filter_empty_conv)
  then have "length (jsSplit (CHR ''-'') (p0 @ ''-24:00'')) \<noteq> 2"
    by (simp add: jsSplit_length)
  then show ?thesis
    by (auto simp: isOvernightEvent_def split: list.splits)
qed

text \<open>
  C10. \<^verbatim>\<open>getCurrentDayTimeRange\<close> is idempotent on every string. Its result is the
  input itself or a range that ends in the token 24:00, and \<^verbatim>\<open>isOvernightEvent\<close> is
  false on a range ending in 24:00 whenever the hour of its start is at most 23.
\<close>

theorem C10_current_day_idempotent:
  "getCurrentDayTimeRange (getCurrentDayTimeRange t) = getCurrentDayTimeRange t \<and>
   (getCurrentDayTimeRange t = t \<or> (\<exists>p0. getCurrentDayTimeRange t = p0 @ ''-24:00'')) \<and>
   (\<forall>p0 h. hour (parseTimeString p0) = Fin h \<and> h \<le> 23 \<longrightarrow>
       \<not> isOvernightEvent (p0 @ ''-24:00''))"
proof (intro conjI allI impI)
  show "getCurrentDayTimeRange (getCurrentDayTimeRange t) = getCurrentDayTimeRange t"
  proof (cases "isOvernightEvent t")
    case True
    then obtain p0 where "CHR ''-'' \<notin> set p0" "getCurrentDayTimeRange t = p0 @ ''-24:00''"
      using current_shape by blast
    then show ?thesis by (simp add: current_fixed)
  next
    case False
    then show ?thesis by (simp add: getCurrentDayTimeRange_def)
  qed
  show "getCurrentDayTimeRange t = t \<or> (\<exists>p0. getCurrentDayTimeRange t = p0 @ ''-24:00'')"
    using current_shape [of t]
    by (cases "isOvernightEvent t") (auto simp: getCurrentDayTimeRange_def)
  fix p0 h
  assume "hour (parseTimeString p0) = Fin h \<and> h \<le> 23"
  then show "\<not> isOvernightEvent (p0 @ ''-24:00'')"
    using not_overnight_2400 by blast
qed

text \<open>The idempotence at 22:00-02:00, whose start-day range is 22:00-24:00.\<close>

theorem C10_current_day_idempotent_witness:
  "getCurrentDayTimeRange (getCurrentDayTimeRange ''22:00-02:00'') =
     getCurrentDayTimeRange ''22:00-02:00'' \<and>
   getCurrentDayTimeRange ''22:00-02:00'' = ''22:00'' @ ''-24:00'' \<and>
   hour (parseTimeString ''22:00'') = Fin 22 \<and>
   \<not> isOvernightEvent (''22:00'' @ ''-24:00'')"
proof -
  have s: "clockStr 22 0 = ''22:00''" by code_simp
  have h: "hour (parseTimeString ''22:00'') = Fin 22"
    using parseTimeString_clockStr [of 22 0] by (simp add: s)
  have c: "getCurrentDayTimeRange ''22:00-02:00'' = ''22:00'' @ ''-24:00''"
    using current_timeRangeStr [of 22 0 2 0] by (simp add: timeRangeStr_literals)
  from C10_current_day_idempotent [of "''22:00-02:00''"]
  have i: "getCurrentDayTimeRange (getCurrentDayTimeRange ''22:00-02:00'') =
      getCurrentDayTimeRange ''22:00-02:00''"
    and n: "\<forall>p0 h. hour (parseTimeString p0) = Fin h \<and> h \<le> 23 \<longrightarrow>
      \<not> isOvernightEvent (p0 @ ''-24:00'')"
    by blast+
  from n have "hour (parseTimeString ''22:00'') = Fin 22 \<and> (22::rat) \<le> 23 \<longrightarrow>
      \<not> isOvernightEvent (''22:00'' @ ''-24:00'')"
    by blast
  with h have "\<not> isOvernightEvent (''22:00'' @ ''-24:00'')" by simp
  with i c h show ?thesis by blast
qed

subsection \<open>Ranges that the views skip\<close>

lemma wrongTokenCount_position:
  "wrongTokenCount r \<Longrightarrow> calculateEventPosition r = None"
  by (auto simp: wrongTokenCount_def calculateEventPosition_def split: list.splits)

lemma wrongTokenCount_overnight:
  "wrongTokenCount r \<Longrightarrow> \<not> isOvernightEvent r"
  by (auto simp: wrongTokenCount_def isOvernightEvent_def split: list.splits)

lemma mkBlock_event: "b \<in> set (mkBlock e col cont pos) \<Longrightarrow> blk_event b = e"
  by (auto simp: mkBlock_def split: option.splits)

lemma weekOwnBlocks_event: "b \<in> set (weekOwnBlocks dayDates e) \<Longrightarrow> blk_event b = e"
  by (auto simp: weekOwnBlocks_def Let_def dest: mkBlock_event split: option.splits if_splits)

lemma weekCarryBlocks_event:
  "b \<in> set (weekCarryBlocks nextDate dayDates e) \<Longrightarrow> blk_event b = e"
  by (auto simp: weekCarryBlocks_def dest: mkBlock_event split: option.splits if_splits)

lemma dayOwnBlocks_event: "b \<in> set (dayOwnBlocks e) \<Longrightarrow> blk_event b = e"
  by (auto simp: dayOwnBlocks_def Let_def dest: mkBlock_event)

lemma dayCarryBlocks_event: "b \<in> set (dayCarryBlocks e) \<Longrightarrow> blk_event b = e"
  by (auto simp: dayCarryBlocks_def dest: mkBlock_event split: if_splits)

lemma wrongTokenCount_no_blocks:
  assumes "wrongTokenCount (time_range e)"
  shows "weekOwnBlocks dayDates e = []" "weekCarryBlocks nextDate dayDates e = []"
    "dayOwnBlocks e = []" "dayCarryBlocks e = []"
  using wrongTokenCount_position [OF assms] wrongTokenCount_overnight [OF assms]
  by (simp_all add: weekOwnBlocks_def weekCarryBlocks_def dayOwnBlocks_def dayCarryBlocks_def
      mkBlock_def split: option.splits)

text \<open>
  C6, as amended. For every event whose time range is empty or does not split into
  exactly two pieces at \<^verbatim>\<open>-\<close>, \<^verbatim>\<open>calculateEventPosition\<close> yields \<^verbatim>\<open>null\<close> and neither
  the week view nor the day view creates a block for the event, whatever the other
  events are. The views have no error path: they return their blocks and nothing else.
\<close>

theorem C6_wrong_token_count_skipped:
  assumes "wrongTokenCount (time_range e)"
  shows "calculateEventPosition (time_range e) = None \<and>
    e \<notin> blk_event ` set (renderWeekView nextDate dayDates events) \<and>
    e \<notin> blk_event ` set (renderDayView currentDateStr prevDateStr events)"
proof (intro conjI)
  show "calculateEventPosition (time_range e) = None"
    using assms by (rule wrongTokenCount_position)
  show "e \<notin> blk_event ` set (renderWeekView nextDate dayDates events)"
  proof
    assume "e \<in> blk_event ` set (renderWeekView nextDate dayDates events)"
    then obtain b e' where b: "blk_event b = e" and e': "e' \<in> set events"
      and m: "b \<in> set (weekOwnBlocks dayDates e') \<or> b \<in> set (weekCarryBlocks nextDate dayDates e')"
      by (auto simp: renderWeekView_def)
    from m have "blk_event b = e'"
      using weekOwnBlocks_event weekCarryBlocks_event by blast
    with b have "e' = e" by simp
    with m show False
      by (simp add: wrongTokenCount_no_blocks [OF assms])
  qed
  show "e \<notin> blk_event ` set (renderDayView currentDateStr prevDateStr events)"
  proof
    assume "e \<in> blk_event ` set (renderDayView currentDateStr prevDateStr events)"
    then obtain b e' where b: "blk_event b = e"
      and m: "b \<in> set (dayOwnBlocks e') \<or> b \<in> set (dayCarryBlocks e')"
      by (auto simp: renderDayView_def)
    from m have "blk_event b = e'"
      using dayOwnBlocks_event dayCarryBlocks_event by blast
    with b have "e' = e" by simp
    with m show False
      by (simp add: wrongTokenCount_no_blocks [OF assms])
  qed
qed

text \<open>The range 12:00 has no \<^verbatim>\<open>-\<close>: no position, and an empty day view.\<close>

theorem C6_wrong_token_count_skipped_witness:
  "wrongTokenCount (time_range (eventAt ''2024-06-02'' ''12:00'')) \<and>
   calculateEventPosition ''12:00'' = None \<and>
   renderDayView ''2024-06-02'' ''2024-06-01'' [eventAt ''2024-06-02'' ''12:00''] = []"
proof -
  have w: "wrongTokenCount (time_range (eventAt ''2024-06-02'' ''12:00''))"
    by (simp add: wrongTokenCount_def eventAt_def)
  have r: "renderDayView ''2024-06-02'' ''2024-06-01'' [eventAt ''2024-06-02'' ''12:00''] = []"
  proof -
    have d: "date (eventAt ''2024-06-02'' ''12:00'') = ''2024-06-02''"
      by (simp add: eventAt_def)
    show ?thesis
      by (simp add: renderDayView_def d wrongTokenCount_no_blocks [OF w])
  qed
  from C6_wrong_token_count_skipped [OF w]
  have "calculateEventPosition (time_range (eventAt ''2024-06-02'' ''12:00'')) = None"
    by blast
  then have "calculateEventPosition ''12:00'' = None" by (simp add: eventAt_def)
  with w r show ?thesis by blast
qed

text \<open>The claim as stated covers every unparseable range. The range \<^verbatim>\<open>foo-bar\<close> has two
  pieces, neither of which \<^verbatim>\<open>parseInt\<close> can read: the position is not \<^verbatim>\<open>null\<close> but
  \<open>{top: NaN, height: NaN}\<close>, and the day view creates a block for the event.\<close>

theorem C6_unparseable_counterexample:
  "calculateEventPosition ''foo-bar'' = Some \<lparr> top_px = NaN, height = NaN \<rparr> \<and>
   renderDayView ''2024-06-02'' ''2024-06-01'' [eventAt ''2024-06-02'' ''foo-bar''] =
     [\<lparr> blk_event = eventAt ''2024-06-02'' ''foo-bar'', blk_column = 0,
        blk_position = \<lparr> top_px = NaN, height = NaN \<rparr>, blk_continuation = False \<rparr>]"
proof -
  have p: "calculateEventPosition ''foo-bar'' = Some \<lparr> top_px = NaN, height = NaN \<rparr>"
    by (simp add: calculateEventPosition_def parseTimeString_def trim_def isWs_def
        parseInt_literals Let_def)
  have o: "\<not> isOvernightEvent ''foo-bar''"
    by (simp add: isOvernightEvent_def parseTimeString_def trim_def isWs_def
        parseInt_literals)
  show ?thesis
    by (simp add: p o renderDayView_def dayOwnBlocks_def mkBlock_def eventAt_def)
qed

section \<open>Properties of the mutation guard\<close>

subsection \<open>Reading traces\<close>

lemma completionPosts_append:
  "completionPosts i (xs @ ys) = completionPosts i xs + completionPosts i ys"
  by (simp add: completionPosts_def)

lemma completionPosts_removalTimers: "completionPosts i (removalTimers es) = 0"
  by (induction es) (simp_all add: completionPosts_def removalTimers_def)


lemma newEffects_append: "trace s' = trace s @ xs \<Longrightarrow> newEffects s s' = xs"
  by (simp add: newEffects_def)

lemma newEffects_same: "newEffects s s = []"
  by (simp add: newEffects_def)

subsection \<open>An accepted completion\<close>

lemma markEventCompleted_rejected:
  "eventId \<in> completedEvents s \<or> eventId \<in> processingEvents s \<Longrightarrow>
     markEventCompleted eventId c s = s"
  by (auto simp: markEventCompleted_def)

lemma markEventCompleted_sets:
  assumes "eventId \<notin> completedEvents s" "eventId \<notin> processingEvents s"
  shows "processingEvents (markEventCompleted eventId c s) = insert eventId (processingEvents s)"
    and "completedEvents (markEventCompleted eventId c s) = insert eventId (completedEvents s)"
  using assms by (simp_all add: markEventCompleted_def Let_def)

lemma markEventCompleted_document:
  assumes "eventId \<notin> completedEvents s" "eventId \<notin> processingEvents s"
  shows "document (markEventCompleted eventId c s) =
    map (\<lambda>e. if data_event_id e = eventId then fadeOut (e\<lparr> completing := True \<rparr>) else e)
      (document s)"
  using assms by (simp add: markEventCompleted_def Let_def)

lemma markEventCompleted_posts:
  assumes "eventId \<notin> completedEvents s" "eventId \<notin> processingEvents s"
  shows "completionPosts eventId (trace (markEventCompleted eventId c s)) =
    completionPosts eventId (trace s) + 1"
  using assms
  by (simp add: markEventCompleted_def Let_def completionPosts_append
      completionPosts_removalTimers) (simp add: completionPosts_def)

lemma markEventCompleted_other_posts:
  "i \<noteq> eventId \<Longrightarrow>
     completionPosts eventId (trace (markEventCompleted i c s)) =
     completionPosts eventId (trace s)"
  by (simp add: markEventCompleted_def Let_def completionPosts_append
      completionPosts_removalTimers) (simp add: completionPosts_def)

subsection \<open>What the other handlers leave alone\<close>

text \<open>While no response for \<open>eventId\<close> is processed, no handler takes it out of the two
  sets and none posts a completion for it.\<close>

lemma markEventCompleted_keeps_guard:
  assumes "eventId \<in> completedEvents s" "eventId \<in> processingEvents s"
  shows "eventId \<in> completedEvents (markEventCompleted i c s) \<and>
    eventId \<in> processingEvents (markEventCompleted i c s) \<and>
    completionPosts eventId (trace (markEventCompleted i c s)) =
      completionPosts eventId (trace s)"
proof (cases "i = eventId")
  case True
  then show ?thesis using assms by (simp add: markEventCompleted_rejected)
next
  case False
  have "eventId \<in> completedEvents (markEventCompleted i c s)"
    "eventId \<in> processingEvents (markEventCompleted i c s)"
    using assms by (simp_all add: markEventCompleted_def Let_def)
  then show ?thesis using markEventCompleted_other_posts [OF False] by simp
qed

lemma deleteCompletedTask_keeps_guard:
  assumes "eventId \<in> completedEvents s" "eventId \<in> processingEvents s"
  shows "eventId \<in> completedEvents (deleteCompletedTask i s) \<and>
    eventId \<in> processingEvents (deleteCompletedTask i s) \<and>
    completionPosts eventId (trace (deleteCompletedTask i s)) =
      completionPosts eventId (trace s)"
  using assms
  by (simp add: deleteCompletedTask_def Let_def completionPosts_append
      completionPosts_removalTimers) (simp add: completionPosts_def)

lemma step_keeps_guard:
  assumes "\<not> settles eventId st"
    and "eventId \<in> completedEvents s" "eventId \<in> processingEvents s"
  shows "eventId \<in> completedEvents (step st s) \<and> eventId \<in> processingEvents (step st s) \<and>
    completionPosts eventId (trace (step st s)) = completionPosts eventId (trace s)"
proof (cases st)
  case (ClickComplete i)
  then show ?thesis
    using markEventCompleted_keeps_guard [OF assms(2,3)] assms(2,3)
    by (simp add: completeButtonClick_def)
next
  case (ClickDetailsComplete i)
  then show ?thesis
    using markEventCompleted_keeps_guard [OF assms(2,3)]
    by (simp add: detailsCompleteClick_def)
next
  case (ClickDelete n i a)
  show ?thesis
  proof (cases "i \<in> completedEvents s \<or> \<not> a")
    case True
    then show ?thesis using ClickDelete assms(2,3)
      by (auto simp: deleteButtonClick_def Let_def completionPosts_def)
  next
    case False
    let ?s1 = "s\<lparr> trace := trace s @ [Confirm MsgConfirmDelete] \<rparr>"
    let ?s2 = "?s1\<lparr> completedEvents := insert i (completedEvents ?s1),
                     document :=
                       map (\<lambda>e. if node e = n
                                 then e\<lparr> opacity := ''0.3'', pointerEvents := ''none'',
                                         transition := ''all 0.5s ease'',
                                         transform := ''translateX(100%)'',
                                         buttons :=
                                           map (\<lambda>b. if btn_class b = DeleteButton
                                                     then b\<lparr> disabled := True,
                                                             textContent := Ellipsis \<rparr>
                                                     else b) (buttons e) \<rparr>
                                 else e) (document ?s1) \<rparr>"
    have e: "step st s = deleteCompletedTask i ?s2"
      using False ClickDelete by (simp add: deleteButtonClick_def Let_def)
    have g: "eventId \<in> completedEvents ?s2" "eventId \<in> processingEvents ?s2"
      using assms(2,3) by simp_all
    have t: "completionPosts eventId (trace ?s2) = completionPosts eventId (trace s)"
      by (simp add: completionPosts_def)
    show ?thesis
      using deleteCompletedTask_keeps_guard [OF g, of i] t by (simp add: e)
  qed
next
  case (ClickDetailsDelete i)
  then show ?thesis
    using deleteCompletedTask_keeps_guard [OF assms(2,3)]
    by (simp add: detailsDeleteClick_def)
next
  case (CompleteSettled i out)
  then show ?thesis using assms
    by (cases out)
       (auto simp: completeSettled_def completeThen_def completeCatch_def Let_def
          completionPosts_def)
next
  case (DeleteSettled i out)
  then show ?thesis using assms
    by (cases out)
       (auto simp: deleteSettled_def deleteThen_def deleteCatch_def Let_def
          completionPosts_def)
next
  case (TimerRemove n)
  then show ?thesis using assms by (simp add: removeElement_def)
next
  case (LoadEvents r)
  then show ?thesis using assms
    by (auto simp: loadEvents_def Let_def completionPosts_def)
next
  case (LoadFailed err)
  then show ?thesis using assms
    by (auto simp: loadEventsCatch_def completionPosts_def)
qed

lemma run_keeps_guard:
  assumes "\<not> list_ex (settles eventId) sts"
    and "eventId \<in> completedEvents s" "eventId \<in> processingEvents s"
  shows "eventId \<in> completedEvents (run sts s) \<and> eventId \<in> processingEvents (run sts s) \<and>
    completionPosts eventId (trace (run sts s)) = completionPosts eventId (trace s)"
  using assms
proof (induction sts arbitrary: s)
  case Nil
  then show ?case by simp
next
  case (Cons st sts)
  from Cons.prems have a: "\<not> settles eventId st" and b: "\<not> list_ex (settles eventId) sts"
    by simp_all
  note k = step_keeps_guard [OF a Cons.prems(2) Cons.prems(3)]
  from Cons.IH [OF b] k show ?case by simp
qed

text \<open>
  C1. Let \<^verbatim>\<open>markEventCompleted\<close> be invoked for an id that is in neither set, and again
  for the same id after any handlers of the page other than a response for that id
  (none at all, in rapid succession). The first invocation puts the id into both sets;
  the second one is rejected and changes nothing, the two sets included; and in the whole
  run exactly one POST to \<^verbatim>\<open>/api/events/{id}/complete\<close> has been issued.
\<close>

theorem C1_second_completion_rejected:
  assumes "eventId \<notin> completedEvents s" "eventId \<notin> processingEvents s"
    and "\<not> list_ex (settles eventId) between"
  shows
    "eventId \<in> processingEvents (markEventCompleted eventId c1 s) \<and>
     eventId \<in> completedEvents (markEventCompleted eventId c1 s) \<and>
     markEventCompleted eventId c2 (run between (markEventCompleted eventId c1 s)) =
       run between (markEventCompleted eventId c1 s) \<and>
     processingEvents (markEventCompleted eventId c2 (run between (markEventCompleted eventId c1 s))) =
       processingEvents (run between (markEventCompleted eventId c1 s)) \<and>
     completedEvents (markEventCompleted eventId c2 (run between (markEventCompleted eventId c1 s))) =
       completedEvents (run between (markEventCompleted eventId c1 s)) \<and>
     completionPosts eventId
       (trace (markEventCompleted eventId c2 (run between (markEventCompleted eventId c1 s)))) =
       completionPosts eventId (trace s) + 1"
proof -
  let ?s1 = "markEventCompleted eventId c1 s"
  have in1: "eventId \<in> completedEvents ?s1" "eventId \<in> processingEvents ?s1"
    by (simp_all add: markEventCompleted_sets [OF assms(1,2)])
  note k = run_keeps_guard [OF assms(3) in1]
  have r: "markEventCompleted eventId c2 (run between ?s1) = run between ?s1"
    using k by (simp add: markEventCompleted_rejected)
  have p: "completionPosts eventId (trace (run between ?s1)) =
      completionPosts eventId (trace s) + 1"
    using k markEventCompleted_posts [OF assms(1,2)] by simp
  show ?thesis using in1 r p by simp
qed

text \<open>Two clicks on the complete button of event 42, with the removal timer of its
  item between them.\<close>

theorem C1_second_completion_rejected_witness:
  "42 \<notin> completedEvents (idle\<lparr> document := [item 1 42 CompleteButton Circle] \<rparr>) \<and>
   \<not> list_ex (settles 42) [TimerRemove 1] \<and>
   markEventCompleted 42 True
     (run [TimerRemove 1]
        (markEventCompleted 42 True (idle\<lparr> document := [item 1 42 CompleteButton Circle] \<rparr>))) =
     run [TimerRemove 1]
        (markEventCompleted 42 True (idle\<lparr> document := [item 1 42 CompleteButton Circle] \<rparr>)) \<and>
   completionPosts 42
     (trace (markEventCompleted 42 True
        (run [TimerRemove 1]
           (markEventCompleted 42 True
              (idle\<lparr> document := [item 1 42 CompleteButton Circle] \<rparr>))))) = 1"
proof -
  let ?s = "idle\<lparr> document := [item 1 42 CompleteButton Circle] \<rparr>"
  have a: "42 \<notin> completedEvents ?s" "42 \<notin> processingEvents ?s"
    by (simp_all add: idle_def)
  have b: "\<not> list_ex (settles 42) [TimerRemove 1]" by simp
  have t: "completionPosts 42 (trace ?s) = 0" by (simp add: idle_def completionPosts_def)
  from C1_second_completion_rejected [OF a b, of True True]
  have r: "markEventCompleted 42 True (run [TimerRemove 1] (markEventCompleted 42 True ?s)) =
      run [TimerRemove 1] (markEventCompleted 42 True ?s)"
    and p: "completionPosts 42
      (trace (markEventCompleted 42 True (run [TimerRemove 1] (markEventCompleted 42 True ?s)))) =
      completionPosts 42 (trace ?s) + 1"
    by blast+
  from p have p': "completionPosts 42
      (trace (markEventCompleted 42 True (run [TimerRemove 1] (markEventCompleted 42 True ?s)))) = 1"
    by (simp only: t add_0_left)
  from a(1) b r p' show ?thesis by blast
qed

subsection \<open>Rollback of a failed completion\<close>

lemma firstComplete_enableComplete:
  "firstComplete (enableComplete bs) =
     map_option (\<lambda>b. b\<lparr> disabled := False, textContent := Circle \<rparr>) (firstComplete bs)"
  by (induction bs) simp_all

lemma restoreElement_completing:
  assumes "completing e"
  shows "opacity (restoreElement e) = ''1''" "\<not> completing (restoreElement e)"
    "pointerEvents (restoreElement e) = ''auto''"
    "map_option disabled (firstComplete (buttons (restoreElement e))) =
       map_option (\<lambda>b. False) (firstComplete (buttons e))"
    "data_event_id (restoreElement e) = data_event_id e"
  using assms
  by (simp_all add: restoreElement_def firstComplete_enableComplete option.map_comp comp_def)

lemma completeSettled_failed:
  assumes "failed out"
  shows "processingEvents (completeSettled eventId out s) = processingEvents s - {eventId}"
    and "completedEvents (completeSettled eventId out s) = completedEvents s - {eventId}"
    and "document (completeSettled eventId out s) = map restoreElement (document s)"
  using assms
  by (cases out; simp add: completeSettled_def completeThen_def completeCatch_def Let_def)+

text \<open>What the two failure paths do to the state they find. After a failure response (a
  body whose status is not \<^verbatim>\<open>success\<close>) or a transport error the id is in neither set,
  every element of the document that carries the class \<^verbatim>\<open>completing\<close> is reset (opacity 1,
  class removed, complete button enabled), and a later \<^verbatim>\<open>markEventCompleted\<close> for the id
  issues a new POST. The elements are those of the document when the handler runs.\<close>

lemma failed_completion_handler:
  assumes "failed out"
  shows
    "eventId \<notin> processingEvents (completeSettled eventId out s) \<and>
     eventId \<notin> completedEvents (completeSettled eventId out s) \<and>
     document (completeSettled eventId out s) = map restoreElement (document s) \<and>
     (\<forall>e \<in> set (document s). completing e \<longrightarrow>
        opacity (restoreElement e) = ''1'' \<and> \<not> completing (restoreElement e) \<and>
        map_option disabled (firstComplete (buttons (restoreElement e))) =
          map_option (\<lambda>b. False) (firstComplete (buttons e))) \<and>
     completionPosts eventId
       (trace (markEventCompleted eventId c (completeSettled eventId out s))) =
       completionPosts eventId (trace (completeSettled eventId out s)) + 1 \<and>
     (eventId \<notin> completedEvents s \<and> eventId \<notin> processingEvents s \<longrightarrow>
        (\<forall>e \<in> set (document (completeSettled eventId out (markEventCompleted eventId c s))).
           data_event_id e = eventId \<longrightarrow>
             opacity e = ''1'' \<and> \<not> completing e \<and>
             map_option disabled (firstComplete (buttons e)) \<noteq> Some True))"
proof (intro conjI)
  let ?s' = "completeSettled eventId out s"
  show p: "eventId \<notin> processingEvents ?s'"
    by (simp add: completeSettled_failed [OF assms])
  show q: "eventId \<notin> completedEvents ?s'"
    by (simp add: completeSettled_failed [OF assms])
  show "document ?s' = map restoreElement (document s)"
    by (simp add: completeSettled_failed [OF assms])
  show "\<forall>e \<in> set (document s). completing e \<longrightarrow>
        opacity (restoreElement e) = ''1'' \<and> \<not> completing (restoreElement e) \<and>
        map_option disabled (firstComplete (buttons (restoreElement e))) =
          map_option (\<lambda>b. False) (firstComplete (buttons e))"
    by (simp add: restoreElement_completing)
  show "completionPosts eventId (trace (markEventCompleted eventId c ?s')) =
      completionPosts eventId (trace ?s') + 1"
    using q p by (rule markEventCompleted_posts)
  show "eventId \<notin> completedEvents s \<and> eventId \<notin> processingEvents s \<longrightarrow>
      (\<forall>e \<in> set (document (completeSettled eventId out (markEventCompleted eventId c s))).
         data_event_id e = eventId \<longrightarrow>
           opacity e = ''1'' \<and> \<not> completing e \<and>
           map_option disabled (firstComplete (buttons e)) \<noteq> Some True)"
  proof (intro impI ballI)
    fix e
    assume fresh: "eventId \<notin> completedEvents s \<and> eventId \<notin> processingEvents s"
      and e: "e \<in> set (document (completeSettled eventId out (markEventCompleted eventId c s)))"
      and i: "data_event_id e = eventId"
    from fresh have d: "document (markEventCompleted eventId c s) =
        map (\<lambda>e. if data_event_id e = eventId then fadeOut (e\<lparr> completing := True \<rparr>) else e)
          (document s)"
      by (simp add: markEventCompleted_document)
    from e obtain e0 where e0: "e0 \<in> set (document s)"
      and ee: "e = restoreElement
          (if data_event_id e0 = eventId then fadeOut (e0\<lparr> completing := True \<rparr>) else e0)"
      by (auto simp: completeSettled_failed [OF assms] d)
    have k: "data_event_id (restoreElement x) = data_event_id x" for x
      by (simp add: restoreElement_def)
    from ee i have "data_event_id e0 = eventId"
      by (simp add: k split: if_splits)
    with ee have ee': "e = restoreElement (fadeOut (e0\<lparr> completing := True \<rparr>))" by simp
    have c: "completing (fadeOut (e0\<lparr> completing := True \<rparr>))" by (simp add: fadeOut_def)
    have "map_option disabled (firstComplete (buttons e)) \<noteq> Some True"
      unfolding ee' restoreElement_completing(4) [OF c]
      by (cases "firstComplete (buttons (fadeOut (e0\<lparr> completing := True \<rparr>)))") simp_all
    then show "opacity e = ''1'' \<and> \<not> completing e \<and>
        map_option disabled (firstComplete (buttons e)) \<noteq> Some True"
      using restoreElement_completing(1,2) [OF c] by (simp add: ee')
  qed
qed

text \<open>
  C2, at the document with one item for event 42. \<^verbatim>\<open>markEventCompleted(42, true)\<close> fades
  the item, sets a timer of 500 ms that removes it, and posts. The timer is never
  cancelled. When the request then fails, by a response with status \<^verbatim>\<open>error\<close> or by a
  transport error, the id leaves both sets, so that a later call posts again, and the
  user is alerted; but the item is not back in the document. If the timer fires first,
  the handler finds no \<^verbatim>\<open>.event-item.completing\<close> to restore. If the response comes
  first, the handler restores the item to opacity 1 with its button enabled, and the
  timer removes the restored item. No reload is scheduled on a failure, so the document
  stays without the item, against the comment of both failure paths that they restore
  the event elements of the page.
\<close>

theorem C2_rollback_lost_to_removal_timer:
  "trace (markEventCompleted 42 True (idle\<lparr> document := [item 1 42 CompleteButton Circle] \<rparr>)) =
     [SetTimeout 500 (RemoveElement 1), Fetch (POST_complete 42 True ''2024-06-01'')] \<and>
   document
     (completeSettled 42 (Json \<lparr> status = ''error'', message = ''no'' \<rparr>)
        (removeElement 1
           (markEventCompleted 42 True
              (idle\<lparr> document := [item 1 42 CompleteButton Circle] \<rparr>)))) = [] \<and>
   document
     (completeSettled 42 Rejected
        (removeElement 1
           (markEventCompleted 42 True
              (idle\<lparr> document := [item 1 42 CompleteButton Circle] \<rparr>)))) = [] \<and>
   document
     (completeSettled 42 (Json \<lparr> status = ''error'', message = ''no'' \<rparr>)
        (markEventCompleted 42 True
           (idle\<lparr> document := [item 1 42 CompleteButton Circle] \<rparr>))) =
     [(item 1 42 CompleteButton Circle)
        \<lparr> opacity := ''1'', pointerEvents := ''auto'', transition := ''all 0.5s ease'',
          transform := ''translateX(0)'' \<rparr>] \<and>
   document
     (removeElement 1
        (completeSettled 42 (Json \<lparr> status = ''error'', message = ''no'' \<rparr>)
           (markEventCompleted 42 True
              (idle\<lparr> document := [item 1 42 CompleteButton Circle] \<rparr>)))) = [] \<and>
   document
     (removeElement 1
        (completeSettled 42 Rejected
           (markEventCompleted 42 True
              (idle\<lparr> document := [item 1 42 CompleteButton Circle] \<rparr>)))) = [] \<and>
   trace
     (removeElement 1
        (completeSettled 42 (Json \<lparr> status = ''error'', message = ''no'' \<rparr>)
           (markEventCompleted 42 True
              (idle\<lparr> document := [item 1 42 CompleteButton Circle] \<rparr>)))) =
     [SetTimeout 500 (RemoveElement 1), Fetch (POST_complete 42 True ''2024-06-01''),
      Alert (MsgUpdateFailed ''no'')] \<and>
   processingEvents
     (removeElement 1
        (completeSettled 42 (Json \<lparr> status = ''error'', message = ''no'' \<rparr>)
           (markEventCompleted 42 True
              (idle\<lparr> document := [item 1 42 CompleteButton Circle] \<rparr>)))) = {} \<and>
   completedEvents
     (removeElement 1
        (completeSettled 42 (Json \<lparr> status = ''error'', message = ''no'' \<rparr>)
           (markEventCompleted 42 True
              (idle\<lparr> document := [item 1 42 CompleteButton Circle] \<rparr>)))) = {}"
  by (simp add: completeSettled_def completeThen_def completeCatch_def removeElement_def
      markEventCompleted_def restoreElement_def removalTimers_def fadeOut_def idle_def item_def
      Let_def)

subsection \<open>The settled set at the start of an operation\<close>









subsection \<open>The confirmation prompt\<close>




section \<open>Properties of the event-list fetch\<close>

lemma loadEvents_guarded: "isLoadingEvents s \<Longrightarrow> loadEvents False s = s"
  by (simp add: loadEvents_def)

lemma loadEvents_fresh:
  "\<not> isLoadingEvents s \<Longrightarrow>
     loadEvents False s =
       s\<lparr> isLoadingEvents := True, loadEventsRetryCount := 0, detailsHidden := True,
          loadingShown := True,
          trace := trace s @ [SetTimeout 10000 AbortFetch, Fetch GET_events] \<rparr>"
  by (simp add: loadEvents_def Let_def)

lemma loadEventsCatch_transient:
  "transient err \<Longrightarrow>
     loadEventsCatch err s = s\<lparr> trace := trace s @ [SetTimeout 1000 RetryLoadEvents] \<rparr>"
  by (simp add: loadEventsCatch_def)

text \<open>The test reads the name of the error and looks for two lower-case words in its
  message.\<close>

lemma transient_examples:
  "transient abortError"
  "transient \<lparr> err_name = ''TypeError'', err_message = ''Load failed'' \<rparr>"
  "\<not> transient \<lparr> err_name = ''TypeError'', err_message = ''Failed to fetch'' \<rparr>"
  by (simp_all add: transient_def abortError_def)

lemma failedAttempt_retry:
  assumes "transient err" "loadEventsRetryCount s < 3"
  shows "failedAttempt err s =
    s\<lparr> isLoadingEvents := True, loadEventsRetryCount := loadEventsRetryCount s + 1,
       detailsHidden := True, loadingShown := True,
       trace := trace s @ [SetTimeout 1000 RetryLoadEvents, SetTimeout 10000 AbortFetch,
                           Fetch GET_events] \<rparr>"
  using assms
  by (simp add: failedAttempt_def loadEventsCatch_transient loadEvents_def Let_def
      MAX_RETRY_COUNT_def)

lemma failedAttempt_give_up:
  assumes "transient err" "loadEventsRetryCount s = 3"
  shows "failedAttempt err s =
    s\<lparr> isLoadingEvents := False, loadEventsRetryCount := 0, loadingShown := False,
       trace := trace s @ [SetTimeout 1000 RetryLoadEvents,
                           Notification MsgMaxRetries True] \<rparr>"
  using assms
  by (simp add: failedAttempt_def loadEventsCatch_transient loadEvents_def Let_def
      MAX_RETRY_COUNT_def)

lemma failedAttempts_append:
  "failedAttempts (xs @ ys) s = failedAttempts ys (failedAttempts xs s)"
  by (induction xs arbitrary: s) simp_all

lemma eventFetches_append: "eventFetches (xs @ ys) = eventFetches xs + eventFetches ys"
  by (simp add: eventFetches_def)

lemma retryDelays_append: "retryDelays (xs @ ys) = retryDelays xs @ retryDelays ys"
  by (simp add: retryDelays_def List.map_filter_def)

lemma failedAttempts_retry:
  assumes "list_all transient errs" "loadEventsRetryCount s + length errs \<le> 3"
    and "isLoadingEvents s"
  shows "isLoadingEvents (failedAttempts errs s) \<and>
    loadEventsRetryCount (failedAttempts errs s) = loadEventsRetryCount s + length errs \<and>
    (\<exists>new. trace (failedAttempts errs s) = trace s @ new \<and>
       eventFetches new = length errs \<and> retryDelays new = replicate (length errs) 1000)"
  using assms
proof (induction errs arbitrary: s)
  case Nil
  then show ?case by (simp add: eventFetches_def retryDelays_def List.map_filter_def)
next
  case (Cons err errs)
  let ?s1 = "failedAttempt err s"
  let ?cycle = "[SetTimeout 1000 RetryLoadEvents, SetTimeout 10000 AbortFetch, Fetch GET_events]"
  from Cons.prems have t: "transient err" and c: "loadEventsRetryCount s < 3" by simp_all
  note f = failedAttempt_retry [OF t c]
  have s1: "isLoadingEvents ?s1" "loadEventsRetryCount ?s1 = loadEventsRetryCount s + 1"
    "trace ?s1 = trace s @ ?cycle"
    by (simp_all add: f)
  from Cons.prems have a: "list_all transient errs"
    and b: "loadEventsRetryCount ?s1 + length errs \<le> 3"
    by (simp_all add: s1)
  from Cons.IH [OF a b s1(1)] obtain new
    where n: "isLoadingEvents (failedAttempts errs ?s1)"
      "loadEventsRetryCount (failedAttempts errs ?s1) = loadEventsRetryCount ?s1 + length errs"
      "trace (failedAttempts errs ?s1) = trace ?s1 @ new"
      "eventFetches new = length errs" "retryDelays new = replicate (length errs) 1000"
    by blast
  have "trace (failedAttempts (err # errs) s) = trace s @ (?cycle @ new)"
    using n(3) s1(3) by simp
  moreover have "eventFetches (?cycle @ new) = length (err # errs)"
    unfolding eventFetches_append n(4) by (simp add: eventFetches_def)
  moreover have "retryDelays (?cycle @ new) = replicate (length (err # errs)) 1000"
    unfolding retryDelays_append n(5) by (simp add: retryDelays_def List.map_filter_def)
  ultimately show ?case using n(1,2) s1(2) by auto
qed

lemma failedAttempts_from_fresh:
  assumes "\<not> isLoadingEvents s" "list_all transient errs" "length errs \<le> 3"
  shows "isLoadingEvents (failedAttempts errs (loadEvents False s)) \<and>
    loadEventsRetryCount (failedAttempts errs (loadEvents False s)) = length errs \<and>
    eventFetches (trace (failedAttempts errs (loadEvents False s))) =
      eventFetches (trace s) + 1 + length errs \<and>
    retryDelays (newEffects s (failedAttempts errs (loadEvents False s))) =
      replicate (length errs) 1000"
proof -
  let ?s0 = "loadEvents False s"
  have s0: "isLoadingEvents ?s0" "loadEventsRetryCount ?s0 = 0"
    "trace ?s0 = trace s @ [SetTimeout 10000 AbortFetch, Fetch GET_events]"
    by (simp_all add: loadEvents_fresh [OF assms(1)])
  have b: "loadEventsRetryCount ?s0 + length errs \<le> 3" using assms(3) by (simp add: s0)
  from failedAttempts_retry [OF assms(2) b s0(1)] obtain new
    where n: "isLoadingEvents (failedAttempts errs ?s0)"
      "loadEventsRetryCount (failedAttempts errs ?s0) = loadEventsRetryCount ?s0 + length errs"
      "trace (failedAttempts errs ?s0) = trace ?s0 @ new"
      "eventFetches new = length errs" "retryDelays new = replicate (length errs) 1000"
    by blast
  have tr: "trace (failedAttempts errs ?s0) =
      trace s @ ([SetTimeout 10000 AbortFetch, Fetch GET_events] @ new)"
    using n(3) s0(3) by simp
  have "eventFetches (trace (failedAttempts errs ?s0)) = eventFetches (trace s) + 1 + length errs"
    unfolding tr eventFetches_append n(4) by (simp add: eventFetches_def)
  moreover have "retryDelays (newEffects s (failedAttempts errs ?s0)) =
      replicate (length errs) 1000"
    unfolding newEffects_append [OF tr] retryDelays_append n(5)
    by (simp add: retryDelays_def List.map_filter_def)
  ultimately show ?thesis using n(1,2) s0(2) by simp
qed

text \<open>The guard, the delay and the bound, for the failures that pass the test of the
  handler. \<^verbatim>\<open>loadEvents()\<close> called while a fetch is outstanding and not as a retry
  returns with the state unchanged. After a failure that passes the test the handler
  sets one timer of 1000 ms for the retry, whatever the retry count. From a call that
  starts a load, up to three such failures in a row each lead to one more fetch; the
  fourth one leads to no fetch: the retry finds the bound exceeded, clears the loading
  flag, the retry count and the loading indicator, and shows an error notification.\<close>

lemma bounded_fixed_retry:
  "(isLoadingEvents s0 \<longrightarrow> loadEvents False s0 = s0) \<and>
   (transient err \<longrightarrow>
      loadEventsCatch err s0 = s0\<lparr> trace := trace s0 @ [SetTimeout 1000 RetryLoadEvents] \<rparr>) \<and>
   (\<not> isLoadingEvents s \<and> list_all transient errs \<and> length errs \<le> 3 \<longrightarrow>
      isLoadingEvents (failedAttempts errs (loadEvents False s)) \<and>
      eventFetches (trace (failedAttempts errs (loadEvents False s))) =
        eventFetches (trace s) + 1 + length errs \<and>
      retryDelays (newEffects s (failedAttempts errs (loadEvents False s))) =
        replicate (length errs) 1000) \<and>
   (\<not> isLoadingEvents s \<and> list_all transient errs \<and> length errs = 4 \<longrightarrow>
      \<not> isLoadingEvents (failedAttempts errs (loadEvents False s)) \<and>
      loadEventsRetryCount (failedAttempts errs (loadEvents False s)) = 0 \<and>
      \<not> loadingShown (failedAttempts errs (loadEvents False s)) \<and>
      eventFetches (trace (failedAttempts errs (loadEvents False s))) =
        eventFetches (trace s) + 4 \<and>
      last (trace (failedAttempts errs (loadEvents False s))) =
        Notification MsgMaxRetries True \<and>
      retryDelays (newEffects s (failedAttempts errs (loadEvents False s))) =
        replicate 4 1000)"
proof -
  have three: "isLoadingEvents (failedAttempts errs (loadEvents False s)) \<and>
      eventFetches (trace (failedAttempts errs (loadEvents False s))) =
        eventFetches (trace s) + 1 + length errs \<and>
      retryDelays (newEffects s (failedAttempts errs (loadEvents False s))) =
        replicate (length errs) 1000"
    if "\<not> isLoadingEvents s \<and> list_all transient errs \<and> length errs \<le> 3"
    using that failedAttempts_from_fresh [of s errs] by simp
  have four: "\<not> isLoadingEvents (failedAttempts errs (loadEvents False s)) \<and>
      loadEventsRetryCount (failedAttempts errs (loadEvents False s)) = 0 \<and>
      \<not> loadingShown (failedAttempts errs (loadEvents False s)) \<and>
      eventFetches (trace (failedAttempts errs (loadEvents False s))) =
        eventFetches (trace s) + 4 \<and>
      last (trace (failedAttempts errs (loadEvents False s))) =
        Notification MsgMaxRetries True \<and>
      retryDelays (newEffects s (failedAttempts errs (loadEvents False s))) =
        replicate 4 1000"
    if h: "\<not> isLoadingEvents s \<and> list_all transient errs \<and> length errs = 4"
  proof -
    from h obtain errs3 err4 where e: "errs = errs3 @ [err4]" and l: "length errs3 = 3"
      by (cases errs rule: rev_cases) auto
    let ?s3 = "failedAttempts errs3 (loadEvents False s)"
    from h e have t3: "list_all transient errs3" and t4: "transient err4" by simp_all
    from h l failedAttempts_from_fresh [of s errs3] t3
    have s3: "loadEventsRetryCount ?s3 = 3"
      "eventFetches (trace ?s3) = eventFetches (trace s) + 1 + 3"
      "retryDelays (newEffects s ?s3) = replicate 3 1000"
      by simp_all
    have len: "length (trace s) \<le> length (trace ?s3)"
    proof -
      have "isLoadingEvents (loadEvents False s)" "loadEventsRetryCount (loadEvents False s) + length errs3 \<le> 3"
        using h l by (simp_all add: loadEvents_fresh)
      from failedAttempts_retry [OF t3 this(2) this(1)] obtain new
        where "trace ?s3 = trace (loadEvents False s) @ new" by blast
      then show ?thesis using h by (simp add: loadEvents_fresh)
    qed
    have f: "failedAttempts errs (loadEvents False s) = failedAttempt err4 ?s3"
      by (simp add: e failedAttempts_append)
    note g = failedAttempt_give_up [OF t4 s3(1)]
    have ne: "newEffects s (failedAttempt err4 ?s3) =
        newEffects s ?s3 @ [SetTimeout 1000 RetryLoadEvents, Notification MsgMaxRetries True]"
      using len by (simp add: g newEffects_def)
    have "retryDelays (newEffects s (failedAttempt err4 ?s3)) = replicate 4 1000"
      unfolding ne retryDelays_append s3(3)
      by (simp add: retryDelays_def List.map_filter_def numeral_eq_Suc replicate_append_same)
    moreover have "eventFetches (trace (failedAttempt err4 ?s3)) = eventFetches (trace s) + 4"
      using s3(2) by (simp add: g eventFetches_append) (simp add: eventFetches_def)
    ultimately show ?thesis
      unfolding f by (simp add: g)
  qed
  show ?thesis
    using loadEvents_guarded [of s0] loadEventsCatch_transient [of err s0] three four
    by blast
qed

text \<open>Four timeouts in a row from the idle state: four fetches, four timers of 1000 ms,
  and the notification at the end.\<close>

lemma bounded_fixed_retry_example:
  "\<not> isLoadingEvents idle \<and> list_all transient (replicate 4 abortError) \<and>
   eventFetches (trace (failedAttempts (replicate 4 abortError) (loadEvents False idle))) = 4 \<and>
   \<not> isLoadingEvents (failedAttempts (replicate 4 abortError) (loadEvents False idle)) \<and>
   last (trace (failedAttempts (replicate 4 abortError) (loadEvents False idle))) =
     Notification MsgMaxRetries True \<and>
   isLoadingEvents (loadEvents False idle) \<and>
   loadEvents False (loadEvents False idle) = loadEvents False idle"
proof -
  have a: "\<not> isLoadingEvents idle" by (simp add: idle_def)
  have t: "transient abortError" by (simp add: transient_def abortError_def)
  then have b: "list_all transient (replicate 4 abortError)"
    by (simp add: list_all_iff)
  have l: "length (replicate 4 abortError) = 4" by simp
  have z: "eventFetches (trace idle) = 0" by (simp add: idle_def eventFetches_def)
  have i: "isLoadingEvents (loadEvents False idle)" by (simp add: loadEvents_fresh [OF a])
  from bounded_fixed_retry [where s = idle and errs = "replicate 4 abortError"] a b l
  have r: "eventFetches (trace (failedAttempts (replicate 4 abortError) (loadEvents False idle))) =
      eventFetches (trace idle) + 4"
    "\<not> isLoadingEvents (failedAttempts (replicate 4 abortError) (loadEvents False idle))"
    "last (trace (failedAttempts (replicate 4 abortError) (loadEvents False idle))) =
      Notification MsgMaxRetries True"
    by blast+
  from bounded_fixed_retry [where ?s0.0 = "loadEvents False idle"] i
  have g: "loadEvents False (loadEvents False idle) = loadEvents False idle"
    by blast
  from r(1) have r1: "eventFetches (trace (failedAttempts (replicate 4 abortError)
      (loadEvents False idle))) = 4"
    by (simp only: z add_0_left)
  from a b r1 r(2,3) i g show ?thesis by blast
qed

subsection \<open>Network errors that the test does not recognise\<close>

text \<open>
  C7, at the network errors of two browsers. When the network is down, \<^verbatim>\<open>fetch\<close>
  rejects with a \<^verbatim>\<open>TypeError\<close> whose message is \<^verbatim>\<open>Failed to fetch\<close> in Chrome and
  \<^verbatim>\<open>NetworkError when attempting to fetch resource.\<close> in Firefox. The handler looks
  for the lower-case words \<^verbatim>\<open>network\<close> and \<^verbatim>\<open>failed\<close> in the message, and
  \<^verbatim>\<open>includes\<close> is case-sensitive: neither message passes. The handler sets no retry
  timer: after the one fetch of the load it clears the loading flag, the retry count and
  the loading indicator and shows the error notification at once, against its comment
  that a timeout or network error is retried. The message \<^verbatim>\<open>Load failed\<close> of Safari
  and an abort do pass the test.
\<close>

theorem C7_network_error_not_retried:
  "\<not> transient \<lparr> err_name = ''TypeError'', err_message = ''Failed to fetch'' \<rparr> \<and>
   \<not> transient \<lparr> err_name = ''TypeError'',
                  err_message = ''NetworkError when attempting to fetch resource.'' \<rparr> \<and>
   transient \<lparr> err_name = ''TypeError'', err_message = ''Load failed'' \<rparr> \<and>
   transient abortError \<and>
   run [LoadEvents False,
        LoadFailed \<lparr> err_name = ''TypeError'', err_message = ''Failed to fetch'' \<rparr>] idle =
     idle\<lparr> trace := [SetTimeout 10000 AbortFetch, Fetch GET_events,
                       Notification (MsgLoadFailed ''Failed to fetch'') True] \<rparr> \<and>
   run [LoadEvents False,
        LoadFailed \<lparr> err_name = ''TypeError'',
                     err_message = ''NetworkError when attempting to fetch resource.'' \<rparr>] idle =
     idle\<lparr> trace := [SetTimeout 10000 AbortFetch, Fetch GET_events,
                       Notification
                         (MsgLoadFailed ''NetworkError when attempting to fetch resource.'')
                         True] \<rparr> \<and>
   retryDelays (trace (run [LoadEvents False,
        LoadFailed \<lparr> err_name = ''TypeError'', err_message = ''Failed to fetch'' \<rparr>] idle)) = [] \<and>
   eventFetches (trace (run [LoadEvents False,
        LoadFailed \<lparr> err_name = ''TypeError'', err_message = ''Failed to fetch'' \<rparr>] idle)) = 1"
  by (simp add: transient_def abortError_def loadEventsCatch_def loadEvents_def idle_def Let_def
      retryDelays_def eventFetches_def List.map_filter_def)

end
